theory Spec2Isabelle
  imports Main "HOL-Library.Word"
begin

section \<open>The linker plugin API\<close>

text \<open>
  The enumerations of the plugin API (\<^verbatim>\<open>lto.h\<close>), one datatype each. Only the names
  of the enumerators matter to \<^verbatim>\<open>lto.cc\<close>; it never computes with their numbers.
\<close>

datatype PluginStatus = LDPS_OK | LDPS_NO_SYMS | LDPS_BAD_HANDLE | LDPS_ERR

datatype PluginSymbolKind =
  LDPK_DEF | LDPK_WEAKDEF | LDPK_UNDEF | LDPK_WEAKUNDEF | LDPK_COMMON

datatype PluginSymbolType = LDST_UNKNOWN | LDST_FUNCTION | LDST_VARIABLE

datatype PluginSymbolVisibility =
  LDPV_DEFAULT | LDPV_PROTECTED | LDPV_INTERNAL | LDPV_HIDDEN

datatype PluginSymbolResolution =
  LDPR_UNKNOWN | LDPR_UNDEF | LDPR_PREVAILING_DEF | LDPR_PREVAILING_DEF_IRONLY
  | LDPR_PREEMPTED_REG | LDPR_PREEMPTED_IR | LDPR_RESOLVED_IR | LDPR_RESOLVED_EXEC
  | LDPR_RESOLVED_DYN | LDPR_PREVAILING_DEF_IRONLY_EXP

datatype PluginLinkerOutput = LDPO_REL | LDPO_EXEC | LDPO_DYN | LDPO_PIE

datatype PluginTag =
  LDPT_NULL | LDPT_MESSAGE | LDPT_LINKER_OUTPUT | LDPT_OPTION
  | LDPT_REGISTER_CLAIM_FILE_HOOK | LDPT_REGISTER_ALL_SYMBOLS_READ_HOOK
  | LDPT_REGISTER_CLEANUP_HOOK | LDPT_ADD_SYMBOLS | LDPT_GET_SYMBOLS
  | LDPT_ADD_INPUT_FILE | LDPT_GET_INPUT_FILE | LDPT_RELEASE_INPUT_FILE
  | LDPT_ADD_INPUT_LIBRARY | LDPT_OUTPUT_NAME | LDPT_SET_EXTRA_LIBRARY_PATH
  | LDPT_GET_VIEW | LDPT_GET_INPUT_SECTION_COUNT | LDPT_GET_INPUT_SECTION_TYPE
  | LDPT_GET_INPUT_SECTION_NAME | LDPT_GET_INPUT_SECTION_CONTENTS
  | LDPT_UPDATE_SECTION_ORDER | LDPT_ALLOW_SECTION_ORDERING | LDPT_GET_SYMBOLS_V2
  | LDPT_ALLOW_UNIQUE_SEGMENT_FOR_SECTIONS | LDPT_UNIQUE_SEGMENT_FOR_SECTIONS
  | LDPT_GET_SYMBOLS_V3 | LDPT_GET_INPUT_SECTION_ALIGNMENT
  | LDPT_GET_INPUT_SECTION_SIZE | LDPT_REGISTER_NEW_INPUT_HOOK | LDPT_GET_WRAP_SYMBOLS

text \<open>
  The value of a \<^verbatim>\<open>PluginTagValue\<close>: an output kind, a saved string, a callback of
  \<^verbatim>\<open>lto.cc\<close> (by its name), or the 0 that closes the table.
\<close>

datatype TagValue =
  TvOutput PluginLinkerOutput | TvString string | TvCallback string | TvZero

type_synonym PluginTagValue = "PluginTag \<times> TagValue"

text \<open>
  \<^verbatim>\<open>struct PluginSymbol\<close>, with the fields \<^verbatim>\<open>lto.cc\<close> reads or writes. The field
  \<^verbatim>\<open>size\<close> is written \<open>size'\<close>.
\<close>

record PluginSymbol =
  name :: string
  "def" :: PluginSymbolKind
  symbol_type :: PluginSymbolType
  visibility :: PluginSymbolVisibility
  size' :: "64 word"
  resolution :: PluginSymbolResolution

type_synonym handle = nat

text \<open>\<^verbatim>\<open>struct PluginInputFile\<close>; \<open>pif_handle\<close> is the address of the linker's object.\<close>

record PluginInputFile =
  pif_name :: string
  pif_fd :: int
  pif_offset :: nat
  pif_filesize :: nat
  pif_handle :: handle

section \<open>ELF symbols\<close>

text \<open>
  The targets \<^verbatim>\<open>E\<close> for which \<^verbatim>\<open>lto.cc\<close> instantiates its templates.
\<close>

datatype Target = X86_64 | I386 | ARM64 | RISCV64

text \<open>
  Modelled from the spec: \<^verbatim>\<open>ElfSym<E>\<close> is declared in \<^verbatim>\<open>elf.h\<close>, which is not part
  of the sources at hand. Its \<^verbatim>\<open>st_size\<close> is as wide as the ELF format of the target
  makes it: 32 bits in the ELF32 entry of \<^verbatim>\<open>I386\<close>, 64 bits in the ELF64 entry of the
  other targets.
\<close>

fun st_size_bits :: "Target \<Rightarrow> nat" where
  "st_size_bits I386 = 32"
| "st_size_bits E = 64"

text \<open>
  \<^verbatim>\<open>ElfSym<E>\<close> with the fields \<^verbatim>\<open>to_elf_sym\<close> sets: the section index, the
  4-bit binding and type, the 2-bit visibility, and the size. The size is the unsigned
  value of the field; an assignment to it keeps the value modulo \<open>2 ^ st_size_bits E\<close>.
\<close>

record ElfSym =
  st_type :: "4 word"
  st_bind :: "4 word"
  st_visibility :: "2 word"
  st_shndx :: "16 word"
  st_size :: nat

text \<open>
  Modelled from the spec: the ELF constants are declared in \<^verbatim>\<open>elf.h\<close>, which is not
  part of the sources at hand. The spec names them (undefined index, absolute,
  common index, weak binding, types none, function and object, the four
  visibilities); their numbers are those of the ELF format.
\<close>

definition SHN_UNDEF :: "16 word" where "SHN_UNDEF = 0"
definition SHN_ABS :: "16 word" where "SHN_ABS = 0xfff1"
definition SHN_COMMON :: "16 word" where "SHN_COMMON = 0xfff2"

definition STB_LOCAL :: "4 word" where "STB_LOCAL = 0"
definition STB_GLOBAL :: "4 word" where "STB_GLOBAL = 1"
definition STB_WEAK :: "4 word" where "STB_WEAK = 2"

definition STT_NOTYPE :: "4 word" where "STT_NOTYPE = 0"
definition STT_OBJECT :: "4 word" where "STT_OBJECT = 1"
definition STT_FUNC :: "4 word" where "STT_FUNC = 2"

definition STV_DEFAULT :: "2 word" where "STV_DEFAULT = 0"
definition STV_INTERNAL :: "2 word" where "STV_INTERNAL = 1"
definition STV_HIDDEN :: "2 word" where "STV_HIDDEN = 2"
definition STV_PROTECTED :: "2 word" where "STV_PROTECTED = 3"

text \<open>\<^verbatim>\<open>ElfSym<E> esym = {}\<close>: every field zero.\<close>

definition ElfSym_zero :: ElfSym where
  "ElfSym_zero =
     \<lparr>st_type = 0, st_bind = 0, st_visibility = 0, st_shndx = 0, st_size = 0\<rparr>"

text \<open>
  \<^verbatim>\<open>to_elf_sym<E>\<close>: three switches, each updating the zeroed entry, then the size,
  a 64-bit value assigned to the \<^verbatim>\<open>st_size\<close> of the target.
  The switches have no default: a case that sets nothing leaves the zero of the
  initialisation. The datatypes hold the enumerators only, so a record whose field is
  outside its enumeration is not a value here.
\<close>

definition to_elf_sym :: "Target \<Rightarrow> PluginSymbol \<Rightarrow> ElfSym" where
  "to_elf_sym E psym =
     (let esym = ElfSym_zero;
          esym = (case def psym of
                    LDPK_DEF \<Rightarrow> esym\<lparr>st_shndx := SHN_ABS\<rparr>
                  | LDPK_WEAKDEF \<Rightarrow> esym\<lparr>st_shndx := SHN_ABS, st_bind := STB_WEAK\<rparr>
                  | LDPK_UNDEF \<Rightarrow> esym\<lparr>st_shndx := SHN_UNDEF\<rparr>
                  | LDPK_WEAKUNDEF \<Rightarrow> esym\<lparr>st_shndx := SHN_UNDEF, st_bind := STB_WEAK\<rparr>
                  | LDPK_COMMON \<Rightarrow> esym\<lparr>st_shndx := SHN_COMMON\<rparr>);
          esym = (case symbol_type psym of
                    LDST_UNKNOWN \<Rightarrow> esym
                  | LDST_FUNCTION \<Rightarrow> esym\<lparr>st_type := STT_FUNC\<rparr>
                  | LDST_VARIABLE \<Rightarrow> esym\<lparr>st_type := STT_OBJECT\<rparr>);
          esym = (case visibility psym of
                    LDPV_DEFAULT \<Rightarrow> esym
                  | LDPV_PROTECTED \<Rightarrow> esym\<lparr>st_visibility := STV_PROTECTED\<rparr>
                  | LDPV_INTERNAL \<Rightarrow> esym\<lparr>st_visibility := STV_INTERNAL\<rparr>
                  | LDPV_HIDDEN \<Rightarrow> esym\<lparr>st_visibility := STV_HIDDEN\<rparr>)
      in esym\<lparr>st_size := unat (size' psym) mod 2 ^ st_size_bits E\<rparr>)"

section \<open>The linker's objects and the session\<close>

text \<open>
  A \<^verbatim>\<open>Symbol<E> *\<close> is either the fresh symbol made by \<^verbatim>\<open>new Symbol<E>\<close> or the
  interned symbol of a name (\<^verbatim>\<open>get_symbol(ctx, name)\<close>: one symbol per name).
\<close>

datatype SymbolRef = Anon | Interned string

record MappedFile =
  mf_name :: string
  mf_parent :: "string option"
  mf_offset :: nat
  mf_size :: nat

text \<open>
  An input file of the linker (\<^verbatim>\<open>InputFile<E>\<close> and its subclass
  \<^verbatim>\<open>ObjectFile<E>\<close>) with the members \<^verbatim>\<open>lto.cc\<close> touches. \<open>is_dso\<close> is the
  answer of \<^verbatim>\<open>is_dso()\<close>; \<open>is_lto_obj\<close> is a member of object files and is read
  only after \<open>is_dso\<close> was found false.
\<close>

record InputFile =
  mf :: "MappedFile option"
  symbols :: "SymbolRef list"
  elf_syms :: "ElfSym list"
  sym_fragments :: "(handle option \<times> int) list"
  symvers :: "string option list"
  first_global :: int
  is_dso :: bool
  is_lto_obj :: bool
  is_alive :: bool
  priority :: int

text \<open>
  Modelled from the spec: the class \<^verbatim>\<open>ObjectFile<E>\<close> is declared in \<^verbatim>\<open>mold.h\<close>,
  which is not part of the sources at hand. A default-constructed object has empty
  vectors and is neither a shared object nor an IR object; no theorem below depends
  on the priority or liveness it starts with.
\<close>

definition new_ObjectFile :: InputFile where
  "new_ObjectFile =
     \<lparr>mf = None, symbols = [], elf_syms = [], sym_fragments = [], symvers = [],
      first_global = 0, is_dso = False, is_lto_obj = False, is_alive = False,
      priority = 0\<rparr>"

text \<open>The options of the link that \<^verbatim>\<open>lto.cc\<close> reads from \<^verbatim>\<open>ctx.arg\<close>.\<close>

record Args =
  plugin :: string
  shared :: bool
  pie :: bool
  plugin_opt :: "string list"
  "output" :: string

text \<open>What the process does to the outside, in order.\<close>

datatype event =
  Dlopen string
  | Dlsym string
  | Onload "PluginTagValue list"
  | ClaimFile PluginInputFile
  | AllSymbolsRead
  | Cleanup

text \<open>
  The state: the file-scope statics of \<^verbatim>\<open>lto.cc\<close> (\<open>phase\<close>, \<open>dlopen_handle\<close>,
  \<open>plugin_symbols\<close>, the three hooks, each a flag saying whether the function
  pointer is set), the function-local statics (\<open>flag\<close> of \<^verbatim>\<open>read_lto_object\<close>,
  \<open>file_priority\<close> of \<^verbatim>\<open>add_input_file\<close>), and the part of the context
  \<^verbatim>\<open>ctx\<close> the file works on: the target \<^verbatim>\<open>E\<close> of \<^verbatim>\<open>Context<E>\<close>, \<open>arg\<close>,
  the vector \<open>objs\<close> of object
  addresses, the heap \<open>files\<close> from addresses to objects with its allocation
  pointer \<open>next_handle\<close>, and \<open>symbol_file\<close>, the member \<^verbatim>\<open>file\<close> of the interned
  symbol of each name (\<open>None\<close> for a null pointer).

  Modelled from the spec: \<open>ctx_file_priority\<close> is the priority counter of the
  session that the spec gives to ingestion; the code that draws from it is the caller
  of \<^verbatim>\<open>read_lto_object\<close>, not part of the sources at hand.

  The 64-bit counters are unbounded integers here: each increment comes with a new
  object, so they cannot reach \<open>2^63\<close>.
\<close>

record state =
  phase :: int
  flag :: bool
  dlopen_handle :: bool
  plugin_symbols :: "PluginSymbol list"
  claim_file_hook :: bool
  all_symbols_read_hook :: bool
  cleanup_hook :: bool
  file_priority :: int
  target :: Target
  arg :: Args
  objs :: "handle list"
  files :: "handle \<Rightarrow> InputFile"
  next_handle :: handle
  symbol_file :: "string \<Rightarrow> handle option"
  ctx_file_priority :: int
  trace :: "event list"

text \<open>
  How a call ends when it does not return: \<^verbatim>\<open>Fatal(ctx)\<close> ends the process with a
  message, a failed \<^verbatim>\<open>assert\<close> (in a build that keeps its assertions),
  \<^verbatim>\<open>unreachable()\<close>, an index past the end of a vector or of the caller's buffer,
  a call through a null function pointer.
\<close>

datatype error =
  Fatal string | AssertFailed | Unreachable | OutOfRange | NullHook

section \<open>Callbacks\<close>

text \<open>\<^verbatim>\<open>add_symbols\<close>; the list is the array \<^verbatim>\<open>psyms\<close> of \<^verbatim>\<open>nsyms\<close> records.\<close>

definition add_symbols ::
  "PluginSymbol list \<Rightarrow> state \<Rightarrow> error + (PluginStatus \<times> state)" where
  "add_symbols psyms s =
     (if phase s \<noteq> 1 then Inl AssertFailed
      else Inr (LDPS_OK, s\<lparr>plugin_symbols := psyms\<rparr>))"

text \<open>
  Modelled from the spec: \<^verbatim>\<open>ObjectFile<E>::create\<close>, \<^verbatim>\<open>parse\<close> and
  \<^verbatim>\<open>resolve_symbols\<close> belong to the linker core, not part of the sources at hand.
  \<open>ObjectFile_create\<close> is an ordinary object (not an IR object); parsing and
  resolving it make it the owner of the names \<open>won\<close> that the ordinary resolution
  hands to it, and touch no other object.
\<close>

definition ObjectFile_create :: "string \<Rightarrow> InputFile" where
  "ObjectFile_create path =
     new_ObjectFile\<lparr>mf := Some \<lparr>mf_name = path, mf_parent = None, mf_offset = 0, mf_size = 0\<rparr>\<rparr>"

definition resolve_symbols :: "handle \<Rightarrow> string list \<Rightarrow> state \<Rightarrow> state" where
  "resolve_symbols file won s =
     s\<lparr>symbol_file := (\<lambda>n. if n \<in> set won then Some file else symbol_file s n)\<rparr>"

text \<open>
  \<^verbatim>\<open>add_input_file\<close>. \<open>loaded\<close> is what the file system and the loader answer for
  \<open>path\<close>: \<open>None\<close> when \<^verbatim>\<open>must_open\<close> fails, else the names the object wins.
\<close>

definition add_input_file ::
  "string \<Rightarrow> string list option \<Rightarrow> state \<Rightarrow> error + (PluginStatus \<times> state)" where
  "add_input_file path loaded s =
     (case loaded of
        None \<Rightarrow> Inl (Fatal (''cannot open '' @ path))
      | Some won \<Rightarrow>
          (let file = next_handle s;
               s = s\<lparr>next_handle := Suc file,
                      files := (files s)(file := ObjectFile_create path)\<rparr>;
               s = s\<lparr>objs := objs s @ [file]\<rparr>;
               s = s\<lparr>files := (files s)(file := (files s file)\<lparr>priority := file_priority s\<rparr>),
                      file_priority := file_priority s + 1\<rparr>;
               s = s\<lparr>files := (files s)(file := (files s file)\<lparr>is_alive := True\<rparr>)\<rparr>;
               s = resolve_symbols file won s
           in Inr (LDPS_OK, s)))"

text \<open>The owner of a symbol: \<^verbatim>\<open>sym.file\<close>.\<close>

definition sym_file :: "state \<Rightarrow> SymbolRef \<Rightarrow> handle option" where
  "sym_file s symb = (case symb of Anon \<Rightarrow> None | Interned n \<Rightarrow> symbol_file s n)"

text \<open>The lambda \<^verbatim>\<open>get_resolution\<close> of \<^verbatim>\<open>get_symbols\<close>, for the queried object \<open>file\<close>.\<close>

definition get_resolution ::
  "state \<Rightarrow> handle \<Rightarrow> PluginSymbol \<Rightarrow> SymbolRef \<Rightarrow> PluginSymbolResolution" where
  "get_resolution s file psym symb =
     (case sym_file s symb of
        None \<Rightarrow> LDPR_UNDEF
      | Some f \<Rightarrow>
          if f = file then LDPR_PREVAILING_DEF
          else if is_dso (files s f) then LDPR_RESOLVED_DYN
          else if is_lto_obj (files s f) then LDPR_RESOLVED_IR
          else LDPR_RESOLVED_EXEC)"

text \<open>
  The first loop of \<^verbatim>\<open>get_symbols\<close>, from index \<open>i\<close>. \<open>psyms\<close> is the buffer the
  backend passes; writing past its end is \<open>OutOfRange\<close>.
\<close>

function preempt_loop ::
  "nat \<Rightarrow> int \<Rightarrow> PluginSymbol list \<Rightarrow> error + PluginSymbol list" where
  "preempt_loop i nsyms psyms =
     (if int i < nsyms then
        (if i < length psyms then
           preempt_loop (i + 1) nsyms
             (psyms[i := (psyms ! i)\<lparr>resolution := LDPR_PREEMPTED_REG\<rparr>])
         else Inl OutOfRange)
      else Inr psyms)"
  by pat_completeness auto
termination
  by (relation "measure (\<lambda>(i, nsyms, psyms). nat (nsyms - int i))") auto

declare preempt_loop.simps [simp del]

text \<open>
  The second loop, from index \<open>i\<close>: it reads \<^verbatim>\<open>file.symbols[i + 1]\<close>; an index past
  the end of that vector, or of the buffer, is \<open>OutOfRange\<close>.
\<close>

function resolve_loop ::
  "state \<Rightarrow> handle \<Rightarrow> nat \<Rightarrow> int \<Rightarrow> PluginSymbol list \<Rightarrow> error + PluginSymbol list" where
  "resolve_loop s file i nsyms psyms =
     (if int i < nsyms then
        (if i < length psyms \<and> i + 1 < length (symbols (files s file)) then
           resolve_loop s file (i + 1) nsyms
             (psyms[i := (psyms ! i)\<lparr>resolution :=
                get_resolution s file (psyms ! i) (symbols (files s file) ! (i + 1))\<rparr>])
         else Inl OutOfRange)
      else Inr psyms)"
  by pat_completeness auto
termination
  by (relation "measure (\<lambda>(s, file, i, nsyms, psyms). nat (nsyms - int i))") auto

declare resolve_loop.simps [simp del]

text \<open>
  \<^verbatim>\<open>get_symbols\<close>: the status and the buffer as the call leaves it. The session is
  only read.
\<close>

definition get_symbols ::
  "state \<Rightarrow> handle \<Rightarrow> int \<Rightarrow> PluginSymbol list \<Rightarrow> error + (PluginStatus \<times> PluginSymbol list)" where
  "get_symbols s file nsyms psyms =
     (if \<not> is_alive (files s file) then
        (case preempt_loop 0 nsyms psyms of
           Inl e \<Rightarrow> Inl e
         | Inr psyms' \<Rightarrow> Inr (LDPS_NO_SYMS, psyms'))
      else
        (case resolve_loop s file 0 nsyms psyms of
           Inl e \<Rightarrow> Inl e
         | Inr psyms' \<Rightarrow> Inr (LDPS_OK, psyms')))"

definition get_symbols_v1 ::
  "state \<Rightarrow> handle \<Rightarrow> int \<Rightarrow> PluginSymbol list \<Rightarrow> error + (PluginStatus \<times> PluginSymbol list)" where
  "get_symbols_v1 s file nsyms psyms = Inl Unreachable"

definition get_symbols_v2 ::
  "state \<Rightarrow> handle \<Rightarrow> int \<Rightarrow> PluginSymbol list \<Rightarrow> error + (PluginStatus \<times> PluginSymbol list)" where
  "get_symbols_v2 s file nsyms psyms =
     (case get_symbols s file nsyms psyms of
        Inl e \<Rightarrow> Inl e
      | Inr (st, psyms') \<Rightarrow> Inr (if st = LDPS_NO_SYMS then LDPS_OK else st, psyms'))"

definition get_symbols_v3 ::
  "state \<Rightarrow> handle \<Rightarrow> int \<Rightarrow> PluginSymbol list \<Rightarrow> error + (PluginStatus \<times> PluginSymbol list)" where
  "get_symbols_v3 s file nsyms psyms = get_symbols s file nsyms psyms"

section \<open>The backend\<close>

text \<open>
  The backend is outside the program. What a hook of the backend does to the session
  is the sequence of callbacks it makes before it returns; the other callbacks of the
  table only report \<^verbatim>\<open>LDPS_OK\<close>.
\<close>

datatype plugin_call =
  Call_add_symbols "PluginSymbol list"
  | Call_add_input_file string "string list option"
  | Call_get_symbols_v1 handle int "PluginSymbol list"
  | Call_get_symbols_v2 handle int "PluginSymbol list"
  | Call_get_symbols_v3 handle int "PluginSymbol list"

fun do_call :: "plugin_call \<Rightarrow> state \<Rightarrow> error + state" where
  "do_call (Call_add_symbols psyms) s =
     (case add_symbols psyms s of Inl e \<Rightarrow> Inl e | Inr (st, s') \<Rightarrow> Inr s')"
| "do_call (Call_add_input_file path loaded) s =
     (case add_input_file path loaded s of Inl e \<Rightarrow> Inl e | Inr (st, s') \<Rightarrow> Inr s')"
| "do_call (Call_get_symbols_v1 file nsyms psyms) s =
     (case get_symbols_v1 s file nsyms psyms of Inl e \<Rightarrow> Inl e | Inr r \<Rightarrow> Inr s)"
| "do_call (Call_get_symbols_v2 file nsyms psyms) s =
     (case get_symbols_v2 s file nsyms psyms of Inl e \<Rightarrow> Inl e | Inr r \<Rightarrow> Inr s)"
| "do_call (Call_get_symbols_v3 file nsyms psyms) s =
     (case get_symbols_v3 s file nsyms psyms of Inl e \<Rightarrow> Inl e | Inr r \<Rightarrow> Inr s)"

fun run_calls :: "plugin_call list \<Rightarrow> state \<Rightarrow> error + state" where
  "run_calls [] s = Inr s"
| "run_calls (c # cs) s =
     (case do_call c s of Inl e \<Rightarrow> Inl e | Inr s' \<Rightarrow> run_calls cs s')"

text \<open>
  The shared library: whether \<^verbatim>\<open>dlopen\<close> and \<^verbatim>\<open>dlsym\<close> succeed, and the hooks its
  \<^verbatim>\<open>onload\<close> registers, in order.
\<close>

datatype register_call =
  Register_claim_file_hook | Register_all_symbols_read_hook | Register_cleanup_hook

record plugin_lib =
  dlopen_ok :: bool
  has_onload :: bool
  onload_calls :: "register_call list"

fun register :: "state \<Rightarrow> register_call \<Rightarrow> state" where
  "register s Register_claim_file_hook = s\<lparr>claim_file_hook := True\<rparr>"
| "register s Register_all_symbols_read_hook = s\<lparr>all_symbols_read_hook := True\<rparr>"
| "register s Register_cleanup_hook = s\<lparr>cleanup_hook := True\<rparr>"

section \<open>Loading the plugin\<close>

text \<open>The table \<^verbatim>\<open>tv\<close> that \<^verbatim>\<open>load_plugin\<close> builds.\<close>

definition capability_table :: "Args \<Rightarrow> PluginTagValue list" where
  "capability_table a =
     [(LDPT_MESSAGE, TvCallback ''message'')]
     @ [(LDPT_LINKER_OUTPUT,
          TvOutput (if shared a then LDPO_DYN else if pie a then LDPO_PIE else LDPO_EXEC))]
     @ map (\<lambda>opt. (LDPT_OPTION, TvString opt)) (plugin_opt a)
     @ [(LDPT_REGISTER_CLAIM_FILE_HOOK, TvCallback ''register_claim_file_hook''),
        (LDPT_REGISTER_ALL_SYMBOLS_READ_HOOK, TvCallback ''register_all_symbols_read_hook''),
        (LDPT_REGISTER_CLEANUP_HOOK, TvCallback ''register_cleanup_hook''),
        (LDPT_ADD_SYMBOLS, TvCallback ''add_symbols''),
        (LDPT_GET_SYMBOLS, TvCallback ''get_symbols_v1''),
        (LDPT_ADD_INPUT_FILE, TvCallback ''add_input_file''),
        (LDPT_GET_INPUT_FILE, TvCallback ''get_input_file''),
        (LDPT_RELEASE_INPUT_FILE, TvCallback ''release_input_file''),
        (LDPT_ADD_INPUT_LIBRARY, TvCallback ''add_input_library''),
        (LDPT_OUTPUT_NAME, TvString (output a)),
        (LDPT_SET_EXTRA_LIBRARY_PATH, TvCallback ''set_extra_library_path''),
        (LDPT_GET_VIEW, TvCallback ''get_view''),
        (LDPT_GET_INPUT_SECTION_COUNT, TvCallback ''get_input_section_count''),
        (LDPT_GET_INPUT_SECTION_TYPE, TvCallback ''get_input_section_type''),
        (LDPT_GET_INPUT_SECTION_NAME, TvCallback ''get_input_section_name''),
        (LDPT_GET_INPUT_SECTION_CONTENTS, TvCallback ''get_input_section_contents''),
        (LDPT_UPDATE_SECTION_ORDER, TvCallback ''update_section_order''),
        (LDPT_ALLOW_SECTION_ORDERING, TvCallback ''allow_section_ordering''),
        (LDPT_GET_SYMBOLS_V2, TvCallback ''get_symbols_v2''),
        (LDPT_ALLOW_UNIQUE_SEGMENT_FOR_SECTIONS,
          TvCallback ''allow_unique_segment_for_sections''),
        (LDPT_UNIQUE_SEGMENT_FOR_SECTIONS, TvCallback ''unique_segment_for_sections''),
        (LDPT_GET_SYMBOLS_V3, TvCallback ''get_symbols_v3''),
        (LDPT_GET_INPUT_SECTION_ALIGNMENT, TvCallback ''get_input_section_alignment''),
        (LDPT_GET_INPUT_SECTION_SIZE, TvCallback ''get_input_section_size''),
        (LDPT_REGISTER_NEW_INPUT_HOOK, TvCallback ''register_new_input_hook''),
        (LDPT_GET_WRAP_SYMBOLS, TvCallback ''get_wrap_symbols''),
        (LDPT_NULL, TvZero)]"

text \<open>
  \<^verbatim>\<open>load_plugin\<close>. The assignments before a \<^verbatim>\<open>Fatal\<close> are lost with the process.
\<close>

definition load_plugin :: "plugin_lib \<Rightarrow> state \<Rightarrow> error + state" where
  "load_plugin lib s =
     (if phase s \<noteq> 0 then Inl AssertFailed
      else
        (let s = s\<lparr>phase := 1\<rparr>;
             s = s\<lparr>trace := trace s @ [Dlopen (plugin (arg s))]\<rparr>
         in if \<not> dlopen_ok lib then Inl (Fatal ''could not open plugin file'')
            else
              (let s = s\<lparr>dlopen_handle := True\<rparr>;
                   s = s\<lparr>trace := trace s @ [Dlsym ''onload'']\<rparr>
               in if \<not> has_onload lib then Inl (Fatal ''failed to load plugin'')
                  else
                    (let tv = capability_table (arg s);
                         s = s\<lparr>trace := trace s @ [Onload tv]\<rparr>
                     in Inr (foldl register s (onload_calls lib))))))"

text \<open>
  \<^verbatim>\<open>std::call_once(flag, [&] { load_plugin(ctx); })\<close>: the flag is set when the
  callable has returned.
\<close>

definition call_once_load_plugin :: "plugin_lib \<Rightarrow> state \<Rightarrow> error + state" where
  "call_once_load_plugin lib s =
     (if flag s then Inr s
      else (case load_plugin lib s of
              Inl e \<Rightarrow> Inl e
            | Inr s' \<Rightarrow> Inr (s'\<lparr>flag := True\<rparr>)))"

section \<open>Ingestion\<close>

text \<open>
  What the outside answers during one \<^verbatim>\<open>read_lto_object\<close>: the descriptor
  \<^verbatim>\<open>open\<close> returns, the callbacks \<^verbatim>\<open>claim_file_hook\<close> makes, and the value it
  leaves in \<^verbatim>\<open>claimed\<close>.
\<close>

record claim_reply =
  open_fd :: int
  claim_calls :: "plugin_call list"
  claimed :: int

text \<open>\<^verbatim>\<open>v.resize(n)\<close> on a vector, \<open>d\<close> the value-initialised element.\<close>

definition resize :: "nat \<Rightarrow> 'a \<Rightarrow> 'a list \<Rightarrow> 'a list" where
  "resize n d v = take n v @ replicate (n - length v) d"

text \<open>The loop of \<^verbatim>\<open>read_lto_object\<close> over \<^verbatim>\<open>plugin_symbols\<close>.\<close>

fun push_symbols ::
  "Target \<Rightarrow> PluginSymbol list \<Rightarrow> ElfSym list \<times> SymbolRef list
     \<Rightarrow> ElfSym list \<times> SymbolRef list" where
  "push_symbols E [] (esyms, syms) = (esyms, syms)"
| "push_symbols E (psym # rest) (esyms, syms) =
     push_symbols E rest (esyms @ [to_elf_sym E psym], syms @ [Interned (name psym)])"

text \<open>\<^verbatim>\<open>read_lto_object\<close>, first part: \<^emph>\<open>create mold's object instance\<close>.\<close>

definition create_object :: "MappedFile \<Rightarrow> state \<Rightarrow> handle \<times> state" where
  "create_object m s =
     (let obj = next_handle s;
          s = s\<lparr>next_handle := Suc obj, files := (files s)(obj := new_ObjectFile)\<rparr>;
          s = s\<lparr>files := (files s)(obj := (files s obj)\<lparr>symbols := symbols (files s obj) @ [Anon]\<rparr>)\<rparr>;
          s = s\<lparr>files := (files s)(obj := (files s obj)\<lparr>first_global := 1\<rparr>)\<rparr>;
          s = s\<lparr>files := (files s)(obj := (files s obj)\<lparr>is_lto_obj := True\<rparr>)\<rparr>;
          s = s\<lparr>files := (files s)(obj := (files s obj)\<lparr>mf := Some m\<rparr>)\<rparr>
      in (obj, s))"

text \<open>Second part: \<^emph>\<open>create plugin's object instance\<close>.\<close>

definition create_plugin_file :: "claim_reply \<Rightarrow> MappedFile \<Rightarrow> handle \<Rightarrow> PluginInputFile" where
  "create_plugin_file reply m obj =
     \<lparr>pif_name = (case mf_parent m of Some p \<Rightarrow> p | None \<Rightarrow> mf_name m),
      pif_fd = open_fd reply, pif_offset = mf_offset m, pif_filesize = mf_size m,
      pif_handle = obj\<rparr>"

text \<open>Last part: \<^emph>\<open>initialize object symbols\<close>.\<close>

definition init_symbols :: "handle \<Rightarrow> state \<Rightarrow> state" where
  "init_symbols obj s =
     (let (esyms, syms) =
            push_symbols (target s) (plugin_symbols s)
              ([ElfSym_zero], symbols (files s obj));
          s = s\<lparr>files := (files s)(obj := (files s obj)\<lparr>symbols := syms\<rparr>)\<rparr>;
          s = s\<lparr>files := (files s)(obj := (files s obj)\<lparr>elf_syms := esyms\<rparr>)\<rparr>;
          s = s\<lparr>files := (files s)(obj := (files s obj)\<lparr>sym_fragments :=
                resize (length esyms) (None, 0) (sym_fragments (files s obj))\<rparr>)\<rparr>;
          s = s\<lparr>files := (files s)(obj := (files s obj)\<lparr>symvers :=
                resize (length esyms) None (symvers (files s obj))\<rparr>)\<rparr>;
          s = s\<lparr>plugin_symbols := []\<rparr>
      in s)"

text \<open>
  \<^verbatim>\<open>read_lto_object\<close>. A null \<^verbatim>\<open>claim_file_hook\<close> cannot be called; \<^verbatim>\<open>assert(claimed)\<close>
  follows the hook.
\<close>

definition read_lto_object ::
  "plugin_lib \<Rightarrow> claim_reply \<Rightarrow> MappedFile \<Rightarrow> state \<Rightarrow> error + (handle \<times> state)" where
  "read_lto_object lib reply m s =
     (if plugin (arg s) = [] then
        Inl (Fatal (mf_name m @ '': don't know how to handle this LTO object file''))
      else
        (case call_once_load_plugin lib s of
           Inl e \<Rightarrow> Inl e
         | Inr s \<Rightarrow>
             (let (obj, s) = create_object m s;
                  file = create_plugin_file reply m obj
              in if pif_fd file = - 1 then Inl (Fatal (''cannot open '' @ pif_name file))
                 else if \<not> claim_file_hook s then Inl NullHook
                 else
                   (case run_calls (claim_calls reply)
                           (s\<lparr>trace := trace s @ [ClaimFile file]\<rparr>) of
                      Inl e \<Rightarrow> Inl e
                    | Inr s \<Rightarrow>
                        if claimed reply = 0 then Inl AssertFailed
                        else Inr (obj, init_symbols obj s)))))"

section \<open>Compilation and cleanup\<close>

text \<open>The loop of \<^verbatim>\<open>do_lto\<close> over \<^verbatim>\<open>ctx.objs\<close>.\<close>

fun mark_dead :: "handle list \<Rightarrow> (handle \<Rightarrow> InputFile) \<Rightarrow> (handle \<Rightarrow> InputFile)" where
  "mark_dead [] fs = fs"
| "mark_dead (file # rest) fs =
     mark_dead rest
       (if is_lto_obj (fs file) then fs(file := (fs file)\<lparr>is_alive := False\<rparr>) else fs)"

text \<open>
  \<^verbatim>\<open>do_lto\<close>; \<open>hook\<close> is what \<^verbatim>\<open>all_symbols_read_hook\<close> does. \<^verbatim>\<open>std::erase_if\<close>
  keeps, in order, the elements the predicate rejects.
\<close>

definition do_lto :: "plugin_call list \<Rightarrow> state \<Rightarrow> error + state" where
  "do_lto hook s =
     (if phase s \<noteq> 1 then Inl AssertFailed
      else
        (let s = s\<lparr>phase := 2\<rparr>
         in if \<not> all_symbols_read_hook s then Inl NullHook
            else
              (case run_calls hook (s\<lparr>trace := trace s @ [AllSymbolsRead]\<rparr>) of
                 Inl e \<Rightarrow> Inl e
               | Inr s \<Rightarrow>
                   (let s = s\<lparr>files := mark_dead (objs s) (files s)\<rparr>;
                        s = s\<lparr>objs := filter (\<lambda>file. \<not> is_lto_obj (files s file)) (objs s)\<rparr>
                    in Inr s))))"

definition lto_cleanup :: "state \<Rightarrow> state" where
  "lto_cleanup s = (if cleanup_hook s then s\<lparr>trace := trace s @ [Cleanup]\<rparr> else s)"

section \<open>A sample session\<close>

text \<open>
  A session in its collecting phase, used to run the definitions: object 0 is a live IR
  object, object 1 a second live IR object, 2 a shared object, 3 a regular object and
  4 an IR object that is not alive.
\<close>

definition demo_psym :: "string \<Rightarrow> PluginSymbol" where
  "demo_psym n =
     \<lparr>name = n, def = LDPK_UNDEF, symbol_type = LDST_UNKNOWN, visibility = LDPV_DEFAULT,
      size' = 0, resolution = LDPR_UNKNOWN\<rparr>"

definition demo_files :: "handle \<Rightarrow> InputFile" where
  "demo_files =
     (\<lambda>h. new_ObjectFile)
       (0 := new_ObjectFile\<lparr>symbols := [Anon, Interned ''undef'', Interned ''foo'',
               Interned ''dyn'', Interned ''bar'', Interned ''reg''],
             is_lto_obj := True, is_alive := True, priority := 2\<rparr>,
        1 := new_ObjectFile\<lparr>symbols := [Anon, Interned ''bar'', Interned ''foo''],
             is_lto_obj := True, is_alive := True, priority := 3\<rparr>,
        2 := new_ObjectFile\<lparr>is_dso := True, is_alive := True, priority := 4\<rparr>,
        3 := new_ObjectFile\<lparr>is_alive := True, priority := 5\<rparr>,
        4 := new_ObjectFile\<lparr>symbols := [Anon, Interned ''foo''],
             is_lto_obj := True, is_alive := False, priority := 6\<rparr>)"

definition demo_args :: Args where
  "demo_args =
     \<lparr>plugin = ''liblto_plugin.so'', shared = False, pie = True,
      plugin_opt = [''-fresolution=/tmp/res''], output = ''a.out''\<rparr>"

definition demo_state :: state where
  "demo_state =
     \<lparr>phase = 1, flag = True, dlopen_handle = True, plugin_symbols = [],
      claim_file_hook = True, all_symbols_read_hook = True, cleanup_hook = False,
      file_priority = 100, target = X86_64, arg = demo_args, objs = [0, 1, 3, 4],
      files = demo_files,
      next_handle = 5,
      symbol_file = (\<lambda>n. None)(''foo'' := Some 0, ''bar'' := Some 1, ''dyn'' := Some 2,
        ''reg'' := Some 3),
      ctx_file_priority = 7, trace = []\<rparr>"

section \<open>Allocation\<close>

text \<open>
  The addresses in \<^verbatim>\<open>ctx.objs\<close> are those of objects that exist: they lie below the
  allocation pointer, so that a new object never has the address of one of them.
\<close>

definition objs_allocated :: "state \<Rightarrow> bool" where
  "objs_allocated s = (\<forall>h\<in>set (objs s). h < next_handle s)"

text \<open>
  What callbacks do to the objects: old objects stay as they are, new addresses are
  appended to \<^verbatim>\<open>ctx.objs\<close>, and the new objects are not IR objects.
\<close>

definition extends :: "state \<Rightarrow> state \<Rightarrow> bool" where
  "extends s s' \<longleftrightarrow>
     next_handle s \<le> next_handle s'
     \<and> (\<forall>h<next_handle s. files s' h = files s h)
     \<and> (\<exists>new. objs s' = objs s @ new
           \<and> (\<forall>h\<in>set new. next_handle s \<le> h \<and> h < next_handle s'
                 \<and> \<not> is_lto_obj (files s' h)))"


text \<open>
  What the backend does in \<^verbatim>\<open>all_symbols_read_hook\<close> in the sample: it asks for the
  resolutions of object 0 and hands back one compiled object that wins \<open>foo\<close> and
  \<open>bar\<close>. \<open>demo_compiled\<close> is the session after \<^verbatim>\<open>do_lto\<close>.
\<close>

definition demo_hook :: "plugin_call list" where
  "demo_hook =
     [Call_get_symbols_v2 0 5 (map demo_psym [''undef'', ''foo'', ''dyn'', ''bar'', ''reg'']),
      Call_add_input_file ''/tmp/ccXYZ.ltrans0.o'' (Some [''foo'', ''bar''])]"

definition demo_compiled :: state where
  "demo_compiled = (case do_lto demo_hook demo_state of Inr s' \<Rightarrow> s' | Inl e \<Rightarrow> demo_state)"


section \<open>The start of the process and a sample ingestion\<close>

text \<open>
  The statics as their initialisers leave them, before any call into \<^verbatim>\<open>lto.cc\<close>.
\<close>

definition at_start :: "state \<Rightarrow> bool" where
  "at_start s \<longleftrightarrow>
     phase s = 0 \<and> \<not> flag s \<and> \<not> dlopen_handle s \<and> plugin_symbols s = []
     \<and> \<not> claim_file_hook s \<and> \<not> all_symbols_read_hook s \<and> \<not> cleanup_hook s
     \<and> file_priority s = 100 \<and> trace s = []"

text \<open>
  A session at the start of the process, for the target \<open>E\<close>, with no input read
  yet; \<open>p\<close> is where the priority counter of the session stands.
\<close>

definition process_start :: "Target \<Rightarrow> Args \<Rightarrow> int \<Rightarrow> state" where
  "process_start E a p =
     \<lparr>phase = 0, flag = False, dlopen_handle = False, plugin_symbols = [],
      claim_file_hook = False, all_symbols_read_hook = False, cleanup_hook = False,
      file_priority = 100, target = E, arg = a, objs = [], files = (\<lambda>h. new_ObjectFile),
      next_handle = 0, symbol_file = (\<lambda>n. None), ctx_file_priority = p, trace = []\<rparr>"

text \<open>
  A backend that registers its three hooks, and the claim of an archive member with the
  two symbols \<open>foo\<close> and \<open>bar\<close>; \<open>demo_ingested\<close> is the session after the first
  \<^verbatim>\<open>read_lto_object\<close>.
\<close>

definition demo_lib :: plugin_lib where
  "demo_lib =
     \<lparr>dlopen_ok = True, has_onload = True,
      onload_calls = [Register_claim_file_hook, Register_all_symbols_read_hook,
        Register_cleanup_hook]\<rparr>"

definition demo_foo :: PluginSymbol where
  "demo_foo =
     \<lparr>name = ''foo'', def = LDPK_DEF, symbol_type = LDST_FUNCTION,
      visibility = LDPV_HIDDEN, size' = 24, resolution = LDPR_UNKNOWN\<rparr>"

definition demo_bar :: PluginSymbol where
  "demo_bar =
     \<lparr>name = ''bar'', def = LDPK_WEAKUNDEF, symbol_type = LDST_VARIABLE,
      visibility = LDPV_PROTECTED, size' = 0, resolution = LDPR_UNKNOWN\<rparr>"

definition demo_mf :: MappedFile where
  "demo_mf = \<lparr>mf_name = ''a.o'', mf_parent = Some ''liba.a'', mf_offset = 68, mf_size = 1024\<rparr>"

definition demo_reply :: claim_reply where
  "demo_reply =
     \<lparr>open_fd = 3, claim_calls = [Call_add_symbols [demo_foo, demo_bar]], claimed = 1\<rparr>"

definition demo_ingested :: state where
  "demo_ingested =
     (case read_lto_object demo_lib demo_reply demo_mf (process_start X86_64 demo_args 2) of
        Inr (obj, s') \<Rightarrow> s' | Inl e \<Rightarrow> process_start X86_64 demo_args 2)"

text \<open>
  The records \<^verbatim>\<open>plugin_symbols\<close> holds when a hook has made the callbacks \<open>cs\<close>:
  those of its last \<^verbatim>\<open>add_symbols\<close>, or what was left there.
\<close>

fun delivered :: "plugin_call list \<Rightarrow> PluginSymbol list \<Rightarrow> PluginSymbol list" where
  "delivered [] left = left"
| "delivered (Call_add_symbols psyms # cs) left = delivered cs psyms"
| "delivered (c # cs) left = delivered cs left"


section \<open>The exported functions\<close>

text \<open>
  The linker core calls the three exported functions of \<^verbatim>\<open>lto.cc\<close>, in some order, and
  in between works on its context. \<open>Linker_core f\<close> is such a step of the core: it takes
  from \<open>f\<close> the new values of the context's members and cannot touch the statics of
  \<^verbatim>\<open>lto.cc\<close>. \<open>run\<close> makes a sequence of calls and stops at the first that does not
  return.
\<close>

datatype api_call =
  Read_lto_object claim_reply MappedFile
  | Do_lto "plugin_call list"
  | Lto_cleanup
  | Linker_core "state \<Rightarrow> state"

fun api :: "plugin_lib \<Rightarrow> api_call \<Rightarrow> state \<Rightarrow> error + state" where
  "api lib (Read_lto_object reply m) s =
     (case read_lto_object lib reply m s of Inl e \<Rightarrow> Inl e | Inr (obj, s') \<Rightarrow> Inr s')"
| "api lib (Do_lto hook) s = do_lto hook s"
| "api lib Lto_cleanup s = Inr (lto_cleanup s)"
| "api lib (Linker_core f) s =
     Inr (s\<lparr>objs := objs (f s), files := files (f s), next_handle := next_handle (f s),
            symbol_file := symbol_file (f s), ctx_file_priority := ctx_file_priority (f s)\<rparr>)"

fun run :: "plugin_lib \<Rightarrow> api_call list \<Rightarrow> state \<Rightarrow> error + state" where
  "run lib [] s = Inr s"
| "run lib (c # cs) s = (case api lib c s of Inl e \<Rightarrow> Inl e | Inr s' \<Rightarrow> run lib cs s')"

text \<open>Which calls ingest, which compile, and which events are the loader's.\<close>

fun is_read :: "api_call \<Rightarrow> bool" where
  "is_read (Read_lto_object reply m) = True"
| "is_read c = False"

fun is_do_lto :: "api_call \<Rightarrow> bool" where
  "is_do_lto (Do_lto hook) = True"
| "is_do_lto c = False"

fun is_load :: "event \<Rightarrow> bool" where
  "is_load (Dlopen path) = True"
| "is_load (Dlsym n) = True"
| "is_load (Onload tv) = True"
| "is_load e = False"

text \<open>The one-time sequence of \<^verbatim>\<open>load_plugin\<close>, as the outside sees it.\<close>

definition load_sequence :: "Args \<Rightarrow> event list" where
  "load_sequence a = [Dlopen (plugin a), Dlsym ''onload'', Onload (capability_table a)]"


text \<open>
  A whole link: two IR objects are ingested, the core puts them into \<^verbatim>\<open>ctx.objs\<close> and
  resolves \<open>foo\<close> to the first, the backend compiles them into one object, and the
  backend cleans up.
\<close>

definition demo_mf_b :: MappedFile where
  "demo_mf_b = \<lparr>mf_name = ''b.o'', mf_parent = None, mf_offset = 0, mf_size = 512\<rparr>"

definition demo_reply_b :: claim_reply where
  "demo_reply_b =
     \<lparr>open_fd = 4, claim_calls = [Call_add_symbols [demo_foo\<lparr>def := LDPK_UNDEF\<rparr>]],
      claimed = 1\<rparr>"

definition demo_core :: "state \<Rightarrow> state" where
  "demo_core s =
     s\<lparr>objs := [0, 1],
       files := (files s)
         (0 := (files s 0)\<lparr>is_alive := True, priority := ctx_file_priority s\<rparr>,
          1 := (files s 1)\<lparr>is_alive := True, priority := ctx_file_priority s + 1\<rparr>),
       symbol_file := (symbol_file s)(''foo'' := Some 0),
       ctx_file_priority := ctx_file_priority s + 2\<rparr>"

definition demo_calls :: "api_call list" where
  "demo_calls =
     [Read_lto_object demo_reply demo_mf,
      Read_lto_object demo_reply_b demo_mf_b,
      Linker_core demo_core,
      Do_lto [Call_get_symbols_v2 0 2 [demo_foo, demo_bar],
              Call_add_input_file ''/tmp/ccXYZ.ltrans0.o'' (Some [''foo''])],
      Lto_cleanup]"

definition demo_ingested2 :: state where
  "demo_ingested2 =
     (case read_lto_object demo_lib demo_reply_b demo_mf_b demo_ingested of
        Inr (obj, s') \<Rightarrow> s' | Inl e \<Rightarrow> demo_ingested)"

definition demo_linked :: state where
  "demo_linked =
     (case run demo_lib demo_calls (process_start X86_64 demo_args 2) of
        Inr s' \<Rightarrow> s' | Inl e \<Rightarrow> process_start X86_64 demo_args 2)"




section \<open>Priorities\<close>

text \<open>
  Modelled from the spec: \<^verbatim>\<open>read_lto_object\<close> assigns no priority and does not touch
  \<^verbatim>\<open>ctx.objs\<close>; its caller, which is not part of the sources at hand, does. Following
  the spec, \<open>ingest\<close> gives the new IR object the value of the session's priority
  counter, increments the counter, and appends the object to the active object set.
\<close>

definition ingest ::
  "plugin_lib \<Rightarrow> claim_reply \<Rightarrow> MappedFile \<Rightarrow> state \<Rightarrow> error + (handle \<times> state)" where
  "ingest lib reply m s =
     (case read_lto_object lib reply m s of
        Inl e \<Rightarrow> Inl e
      | Inr (obj, s) \<Rightarrow>
          (let s = s\<lparr>files := (files s)(obj := (files s obj)\<lparr>priority := ctx_file_priority s\<rparr>),
                     ctx_file_priority := ctx_file_priority s + 1\<rparr>;
               s = s\<lparr>objs := objs s @ [obj]\<rparr>
           in Inr (obj, s)))"

text \<open>A sequence of ingestions; the objects are returned in ingestion order.\<close>

fun ingest_all ::
  "plugin_lib \<Rightarrow> (claim_reply \<times> MappedFile) list \<Rightarrow> state \<Rightarrow> error + (handle list \<times> state)" where
  "ingest_all lib [] s = Inr ([], s)"
| "ingest_all lib ((reply, m) # rest) s =
     (case ingest lib reply m s of
        Inl e \<Rightarrow> Inl e
      | Inr (obj, s') \<Rightarrow>
          (case ingest_all lib rest s' of
             Inl e \<Rightarrow> Inl e
           | Inr (hs, s'') \<Rightarrow> Inr (obj # hs, s'')))"

text \<open>The callbacks that hand back a compiled object.\<close>

fun is_add_input_file :: "plugin_call \<Rightarrow> bool" where
  "is_add_input_file (Call_add_input_file path loaded) = True"
| "is_add_input_file c = False"

text \<open>
  A session whose priority counter stands at 100: two IR objects are ingested, and the
  backend hands back one compiled object.
\<close>

definition cex_reqs :: "(claim_reply \<times> MappedFile) list" where
  "cex_reqs = [(demo_reply, demo_mf), (demo_reply_b, demo_mf_b)]"

definition cex_hook :: "plugin_call list" where
  "cex_hook = [Call_add_input_file ''/tmp/ccXYZ.ltrans0.o'' (Some [''foo''])]"

definition cex_ingested :: state where
  "cex_ingested =
     (case ingest_all demo_lib cex_reqs (process_start X86_64 demo_args 100) of
        Inr (hs, s') \<Rightarrow> s' | Inl e \<Rightarrow> process_start X86_64 demo_args 100)"

definition cex_compiled :: state where
  "cex_compiled = (case do_lto cex_hook cex_ingested of Inr s' \<Rightarrow> s' | Inl e \<Rightarrow> cex_ingested)"

text \<open>
  The states in which the sample claim can be ingested: before the plugin is loaded, or
  in the collecting phase with the hooks registered.
\<close>

definition collecting :: "state \<Rightarrow> bool" where
  "collecting s \<longleftrightarrow>
     plugin (arg s) \<noteq> [] \<and> plugin_symbols s = []
     \<and> ((phase s = 0 \<and> \<not> flag s)
          \<or> (phase s = 1 \<and> flag s \<and> claim_file_hook s \<and> all_symbols_read_hook s))"


section \<open>The loops of the resolution query\<close>

lemma preempt_loop_Inr:
  "nat nsyms \<le> length psyms \<Longrightarrow>
   \<exists>ps'. preempt_loop i nsyms psyms = Inr ps' \<and> length ps' = length psyms \<and>
     (\<forall>j<length psyms. ps' ! j =
        (if i \<le> j \<and> int j < nsyms then (psyms ! j)\<lparr>resolution := LDPR_PREEMPTED_REG\<rparr>
         else psyms ! j))"
proof (induction i nsyms psyms rule: preempt_loop.induct)
  case (1 i nsyms psyms)
  show ?case
  proof (cases "int i < nsyms")
    case False
    then show ?thesis by (auto simp: preempt_loop.simps [of i nsyms psyms])
  next
    case True
    with "1.prems" have inb: "i < length psyms" by linarith
    let ?upd = "psyms[i := (psyms ! i)\<lparr>resolution := LDPR_PREEMPTED_REG\<rparr>]"
    from "1.IH" [OF True inb] "1.prems"
    obtain ps' where ps': "preempt_loop (i + 1) nsyms ?upd = Inr ps'"
      "length ps' = length psyms"
      "\<forall>j<length psyms. ps' ! j =
         (if i + 1 \<le> j \<and> int j < nsyms then (?upd ! j)\<lparr>resolution := LDPR_PREEMPTED_REG\<rparr>
          else ?upd ! j)"
      by auto
    have "preempt_loop i nsyms psyms = Inr ps'"
      using True inb ps'(1) by (simp add: preempt_loop.simps [of i nsyms psyms])
    moreover have "\<forall>j<length psyms. ps' ! j =
        (if i \<le> j \<and> int j < nsyms then (psyms ! j)\<lparr>resolution := LDPR_PREEMPTED_REG\<rparr>
         else psyms ! j)"
      using ps'(3) True inb by (auto simp: nth_list_update)
    ultimately show ?thesis using ps'(2) by simp
  qed
qed

lemma resolve_loop_Inr:
  "nat nsyms \<le> length psyms \<Longrightarrow> nat nsyms < length (symbols (files s h)) \<Longrightarrow>
   \<exists>ps'. resolve_loop s h i nsyms psyms = Inr ps' \<and> length ps' = length psyms \<and>
     (\<forall>j<length psyms. ps' ! j =
        (if i \<le> j \<and> int j < nsyms
         then (psyms ! j)\<lparr>resolution :=
                get_resolution s h (psyms ! j) (symbols (files s h) ! (j + 1))\<rparr>
         else psyms ! j))"
proof (induction s h i nsyms psyms rule: resolve_loop.induct)
  case (1 s h i nsyms psyms)
  show ?case
  proof (cases "int i < nsyms")
    case False
    then show ?thesis by (auto simp: resolve_loop.simps [of s h i nsyms psyms])
  next
    case True
    with "1.prems" have inb: "i < length psyms \<and> i + 1 < length (symbols (files s h))"
      by linarith
    let ?upd = "psyms[i := (psyms ! i)\<lparr>resolution :=
                get_resolution s h (psyms ! i) (symbols (files s h) ! (i + 1))\<rparr>]"
    from "1.IH" [OF True inb] "1.prems"
    obtain ps' where ps': "resolve_loop s h (i + 1) nsyms ?upd = Inr ps'"
      "length ps' = length psyms"
      "\<forall>j<length psyms. ps' ! j =
         (if i + 1 \<le> j \<and> int j < nsyms
          then (?upd ! j)\<lparr>resolution :=
                 get_resolution s h (?upd ! j) (symbols (files s h) ! (j + 1))\<rparr>
          else ?upd ! j)"
      by auto
    have "resolve_loop s h i nsyms psyms = Inr ps'"
      using True inb ps'(1) by (simp add: resolve_loop.simps [of s h i nsyms psyms])
    moreover have "\<forall>j<length psyms. ps' ! j =
        (if i \<le> j \<and> int j < nsyms
         then (psyms ! j)\<lparr>resolution :=
                get_resolution s h (psyms ! j) (symbols (files s h) ! (j + 1))\<rparr>
         else psyms ! j)"
      using ps'(3) True inb by (auto simp: nth_list_update get_resolution_def)
    ultimately show ?thesis using ps'(2) by simp
  qed
qed

section \<open>Synthesized symbol entries\<close>

lemma unat_mod_64: "unat (w :: 64 word) mod 18446744073709551616 = unat w"
proof -
  have "unat w < 2 ^ LENGTH(64)" by (rule unsigned_less)
  then show ?thesis by simp
qed

text \<open>
  On \<^verbatim>\<open>I386\<close> the size is not always copied: \<^verbatim>\<open>esym.st_size = psym.size\<close> assigns a
  64-bit value to the 32-bit field of the ELF32 entry. A record of size \<open>2^32 + 24\<close>
  gets the size 24.
\<close>

theorem to_elf_sym_size_truncated:
  "unat (size' (demo_foo\<lparr>size' := 4294967320\<rparr>)) = 4294967320
   \<and> st_size (to_elf_sym I386 (demo_foo\<lparr>size' := 4294967320\<rparr>)) = 24
   \<and> st_size (to_elf_sym I386 (demo_foo\<lparr>size' := 4294967320\<rparr>))
       \<noteq> unat (size' (demo_foo\<lparr>size' := 4294967320\<rparr>))"
  by (simp add: to_elf_sym_def Let_def ElfSym_zero_def demo_foo_def)

text \<open>
  C4, as the code has it: for every target and every plugin symbol record,
  \<^verbatim>\<open>to_elf_sym\<close> maps the definition kind exactly: defined gives the absolute section
  index and a binding that is not weak, weak-defined the absolute index and the weak
  binding, undefined the undefined index and a binding that is not weak, weak-undefined
  the undefined index and the weak binding, common the common index and a binding that
  is not weak. The symbol type unknown, function, variable becomes none, function,
  object. Each visibility becomes the ELF visibility of the same name. The size is copied
  on \<^verbatim>\<open>X86_64\<close>, \<^verbatim>\<open>ARM64\<close> and \<^verbatim>\<open>RISCV64\<close>; on \<^verbatim>\<open>I386\<close> the entry keeps the size
  modulo \<open>2^32\<close>.
\<close>

theorem to_elf_sym_mapping:
  "st_shndx (to_elf_sym E (p\<lparr>def := LDPK_DEF\<rparr>)) = SHN_ABS
   \<and> st_bind (to_elf_sym E (p\<lparr>def := LDPK_DEF\<rparr>)) \<noteq> STB_WEAK
   \<and> st_shndx (to_elf_sym E (p\<lparr>def := LDPK_WEAKDEF\<rparr>)) = SHN_ABS
   \<and> st_bind (to_elf_sym E (p\<lparr>def := LDPK_WEAKDEF\<rparr>)) = STB_WEAK
   \<and> st_shndx (to_elf_sym E (p\<lparr>def := LDPK_UNDEF\<rparr>)) = SHN_UNDEF
   \<and> st_bind (to_elf_sym E (p\<lparr>def := LDPK_UNDEF\<rparr>)) \<noteq> STB_WEAK
   \<and> st_shndx (to_elf_sym E (p\<lparr>def := LDPK_WEAKUNDEF\<rparr>)) = SHN_UNDEF
   \<and> st_bind (to_elf_sym E (p\<lparr>def := LDPK_WEAKUNDEF\<rparr>)) = STB_WEAK
   \<and> st_shndx (to_elf_sym E (p\<lparr>def := LDPK_COMMON\<rparr>)) = SHN_COMMON
   \<and> st_bind (to_elf_sym E (p\<lparr>def := LDPK_COMMON\<rparr>)) \<noteq> STB_WEAK
   \<and> st_type (to_elf_sym E (p\<lparr>symbol_type := LDST_UNKNOWN\<rparr>)) = STT_NOTYPE
   \<and> st_type (to_elf_sym E (p\<lparr>symbol_type := LDST_FUNCTION\<rparr>)) = STT_FUNC
   \<and> st_type (to_elf_sym E (p\<lparr>symbol_type := LDST_VARIABLE\<rparr>)) = STT_OBJECT
   \<and> st_visibility (to_elf_sym E (p\<lparr>visibility := LDPV_DEFAULT\<rparr>)) = STV_DEFAULT
   \<and> st_visibility (to_elf_sym E (p\<lparr>visibility := LDPV_PROTECTED\<rparr>)) = STV_PROTECTED
   \<and> st_visibility (to_elf_sym E (p\<lparr>visibility := LDPV_INTERNAL\<rparr>)) = STV_INTERNAL
   \<and> st_visibility (to_elf_sym E (p\<lparr>visibility := LDPV_HIDDEN\<rparr>)) = STV_HIDDEN
   \<and> st_size (to_elf_sym X86_64 p) = unat (size' p)
   \<and> st_size (to_elf_sym ARM64 p) = unat (size' p)
   \<and> st_size (to_elf_sym RISCV64 p) = unat (size' p)
   \<and> st_size (to_elf_sym I386 p) = unat (size' p) mod 2 ^ 32"
  by (simp add: to_elf_sym_def Let_def ElfSym_zero_def STB_WEAK_def STT_NOTYPE_def STV_DEFAULT_def
      unat_mod_64 split: PluginSymbolKind.split PluginSymbolType.split
        PluginSymbolVisibility.split)

section \<open>The resolution query\<close>

text \<open>
  C2: a resolution query on an object whose \<open>is_alive\<close> flag is false sets the
  resolution of every requested symbol to \<^verbatim>\<open>LDPR_PREEMPTED_REG\<close>, leaves the rest of the
  buffer as it was, and returns \<^verbatim>\<open>LDPS_NO_SYMS\<close>; \<^verbatim>\<open>get_symbols_v2\<close> turns exactly
  that status into \<^verbatim>\<open>LDPS_OK\<close> and returns any other status unchanged, and
  \<^verbatim>\<open>get_symbols_v3\<close> returns what the base query returns. The buffer holds at least the
  requested number of records.
\<close>

theorem get_symbols_retired:
  "(\<not> is_alive (files s h) \<and> nat nsyms \<le> length psyms \<longrightarrow>
      (\<exists>psyms'.
         get_symbols s h nsyms psyms = Inr (LDPS_NO_SYMS, psyms')
         \<and> length psyms' = length psyms
         \<and> (\<forall>i<length psyms. psyms' ! i =
               (if int i < nsyms then (psyms ! i)\<lparr>resolution := LDPR_PREEMPTED_REG\<rparr>
                else psyms ! i))
         \<and> get_symbols_v2 s h nsyms psyms = Inr (LDPS_OK, psyms')
         \<and> get_symbols_v3 s h nsyms psyms = Inr (LDPS_NO_SYMS, psyms')))
   \<and> (get_symbols t g n q = Inr (st, q') \<and> st \<noteq> LDPS_NO_SYMS \<longrightarrow>
        get_symbols_v2 t g n q = Inr (st, q'))
   \<and> get_symbols_v3 t g n q = get_symbols t g n q"
proof (intro conjI impI)
  assume a: "\<not> is_alive (files s h) \<and> nat nsyms \<le> length psyms"
  then obtain ps' where ps': "preempt_loop 0 nsyms psyms = Inr ps'"
      "length ps' = length psyms"
      "\<forall>j<length psyms. ps' ! j =
        (if 0 \<le> j \<and> int j < nsyms then (psyms ! j)\<lparr>resolution := LDPR_PREEMPTED_REG\<rparr>
         else psyms ! j)"
    using preempt_loop_Inr [of nsyms psyms 0] by blast
  from a ps'(1) have "get_symbols s h nsyms psyms = Inr (LDPS_NO_SYMS, ps')"
    by (simp add: get_symbols_def)
  with ps'(2,3) show "\<exists>psyms'.
         get_symbols s h nsyms psyms = Inr (LDPS_NO_SYMS, psyms')
         \<and> length psyms' = length psyms
         \<and> (\<forall>i<length psyms. psyms' ! i =
               (if int i < nsyms then (psyms ! i)\<lparr>resolution := LDPR_PREEMPTED_REG\<rparr>
                else psyms ! i))
         \<and> get_symbols_v2 s h nsyms psyms = Inr (LDPS_OK, psyms')
         \<and> get_symbols_v3 s h nsyms psyms = Inr (LDPS_NO_SYMS, psyms')"
    by (simp add: get_symbols_v2_def get_symbols_v3_def)
next
  assume "get_symbols t g n q = Inr (st, q') \<and> st \<noteq> LDPS_NO_SYMS"
  then show "get_symbols_v2 t g n q = Inr (st, q')"
    by (simp add: get_symbols_v2_def)
next
  show "get_symbols_v3 t g n q = get_symbols t g n q"
    by (simp add: get_symbols_v3_def)
qed

text \<open>
  The query on the retired object 4 of the sample session, for two of three records, and a
  query on the live object 0, whose status \<^verbatim>\<open>LDPS_OK\<close> variant 2 returns unchanged.
\<close>

theorem get_symbols_retired_witness:
  "\<not> is_alive (files demo_state 4)
   \<and> nat 2 \<le> length [demo_psym ''a'', demo_psym ''b'', demo_psym ''c'']
   \<and> get_symbols demo_state 4 2 [demo_psym ''a'', demo_psym ''b'', demo_psym ''c'']
       = Inr (LDPS_NO_SYMS, [(demo_psym ''a'')\<lparr>resolution := LDPR_PREEMPTED_REG\<rparr>,
           (demo_psym ''b'')\<lparr>resolution := LDPR_PREEMPTED_REG\<rparr>, demo_psym ''c''])
   \<and> get_symbols_v2 demo_state 4 2 [demo_psym ''a'', demo_psym ''b'', demo_psym ''c'']
       = Inr (LDPS_OK, [(demo_psym ''a'')\<lparr>resolution := LDPR_PREEMPTED_REG\<rparr>,
           (demo_psym ''b'')\<lparr>resolution := LDPR_PREEMPTED_REG\<rparr>, demo_psym ''c''])
   \<and> get_symbols_v3 demo_state 4 2 [demo_psym ''a'', demo_psym ''b'', demo_psym ''c'']
       = Inr (LDPS_NO_SYMS, [(demo_psym ''a'')\<lparr>resolution := LDPR_PREEMPTED_REG\<rparr>,
           (demo_psym ''b'')\<lparr>resolution := LDPR_PREEMPTED_REG\<rparr>, demo_psym ''c''])
   \<and> get_symbols demo_state 0 1 [demo_psym ''undef'']
       = Inr (LDPS_OK, [(demo_psym ''undef'')\<lparr>resolution := LDPR_UNDEF\<rparr>])
   \<and> LDPS_OK \<noteq> LDPS_NO_SYMS
   \<and> get_symbols_v2 demo_state 0 1 [demo_psym ''undef'']
       = Inr (LDPS_OK, [(demo_psym ''undef'')\<lparr>resolution := LDPR_UNDEF\<rparr>])"
proof -
  let ?ps = "[demo_psym ''a'', demo_psym ''b'', demo_psym ''c'']"
  let ?res = "[(demo_psym ''a'')\<lparr>resolution := LDPR_PREEMPTED_REG\<rparr>,
           (demo_psym ''b'')\<lparr>resolution := LDPR_PREEMPTED_REG\<rparr>, demo_psym ''c'']"
  have dead: "\<not> is_alive (files demo_state 4)"
    by (simp add: demo_state_def demo_files_def)
  have len: "nat 2 \<le> length ?ps" by simp
  have base: "get_symbols demo_state 4 2 ?ps = Inr (LDPS_NO_SYMS, ?res)"
    by (simp add: get_symbols_def demo_state_def demo_files_def preempt_loop.simps)
  have live: "get_symbols demo_state 0 1 [demo_psym ''undef'']
       = Inr (LDPS_OK, [(demo_psym ''undef'')\<lparr>resolution := LDPR_UNDEF\<rparr>])"
    by (simp add: get_symbols_def demo_state_def demo_files_def resolve_loop.simps
        get_resolution_def sym_file_def new_ObjectFile_def)
  note inst = get_symbols_retired [where s = demo_state and h = 4 and nsyms = 2 and psyms = ?ps
      and t = demo_state and g = 0 and n = 1 and q = "[demo_psym ''undef'']"
      and st = LDPS_OK and q' = "[(demo_psym ''undef'')\<lparr>resolution := LDPR_UNDEF\<rparr>]"]
  from inst dead len obtain psyms' where
    r: "get_symbols demo_state 4 2 ?ps = Inr (LDPS_NO_SYMS, psyms')"
       "get_symbols_v2 demo_state 4 2 ?ps = Inr (LDPS_OK, psyms')"
       "get_symbols_v3 demo_state 4 2 ?ps = Inr (LDPS_NO_SYMS, psyms')"
    by blast
  from r(1) base have eq: "psyms' = ?res" by simp
  from inst live have v2: "get_symbols_v2 demo_state 0 1 [demo_psym ''undef'']
       = Inr (LDPS_OK, [(demo_psym ''undef'')\<lparr>resolution := LDPR_UNDEF\<rparr>])"
    by blast
  from dead len base r(2,3) eq live v2 show ?thesis by simp
qed

text \<open>
  C1: a resolution query on an object whose \<open>is_alive\<close> flag is true returns
  \<^verbatim>\<open>LDPS_OK\<close>, and classifies each requested symbol \<open>i\<close> from the current owner of
  \<^verbatim>\<open>file.symbols[i + 1]\<close>: no owner gives \<^verbatim>\<open>LDPR_UNDEF\<close>, the queried object itself
  \<^verbatim>\<open>LDPR_PREVAILING_DEF\<close>, a shared object \<^verbatim>\<open>LDPR_RESOLVED_DYN\<close>, another IR object
  \<^verbatim>\<open>LDPR_RESOLVED_IR\<close>, any other object \<^verbatim>\<open>LDPR_RESOLVED_EXEC\<close>. The requested
  symbols are among those the object records, and the buffer holds them.
\<close>

theorem get_symbols_alive:
  "is_alive (files s h) \<and> nat nsyms \<le> length psyms
     \<and> nat nsyms < length (symbols (files s h)) \<longrightarrow>
   (\<exists>psyms'.
      get_symbols s h nsyms psyms = Inr (LDPS_OK, psyms')
      \<and> length psyms' = length psyms
      \<and> (\<forall>i. int i < nsyms \<longrightarrow>
           (sym_file s (symbols (files s h) ! (i + 1)) = None \<longrightarrow>
              resolution (psyms' ! i) = LDPR_UNDEF)
           \<and> (sym_file s (symbols (files s h) ! (i + 1)) = Some h \<longrightarrow>
              resolution (psyms' ! i) = LDPR_PREVAILING_DEF)
           \<and> (\<forall>f. sym_file s (symbols (files s h) ! (i + 1)) = Some f \<and> f \<noteq> h
                 \<and> is_dso (files s f) \<longrightarrow>
              resolution (psyms' ! i) = LDPR_RESOLVED_DYN)
           \<and> (\<forall>f. sym_file s (symbols (files s h) ! (i + 1)) = Some f \<and> f \<noteq> h
                 \<and> \<not> is_dso (files s f) \<and> is_lto_obj (files s f) \<longrightarrow>
              resolution (psyms' ! i) = LDPR_RESOLVED_IR)
           \<and> (\<forall>f. sym_file s (symbols (files s h) ! (i + 1)) = Some f \<and> f \<noteq> h
                 \<and> \<not> is_dso (files s f) \<and> \<not> is_lto_obj (files s f) \<longrightarrow>
              resolution (psyms' ! i) = LDPR_RESOLVED_EXEC))
      \<and> (\<forall>i<length psyms. \<not> int i < nsyms \<longrightarrow> psyms' ! i = psyms ! i))"
proof
  assume a: "is_alive (files s h) \<and> nat nsyms \<le> length psyms
     \<and> nat nsyms < length (symbols (files s h))"
  then obtain ps' where ps': "resolve_loop s h 0 nsyms psyms = Inr ps'"
      "length ps' = length psyms"
      "\<forall>j<length psyms. ps' ! j =
        (if 0 \<le> j \<and> int j < nsyms
         then (psyms ! j)\<lparr>resolution :=
                get_resolution s h (psyms ! j) (symbols (files s h) ! (j + 1))\<rparr>
         else psyms ! j)"
    using resolve_loop_Inr [of nsyms psyms s h 0] by blast
  from a ps'(1) have g: "get_symbols s h nsyms psyms = Inr (LDPS_OK, ps')"
    by (simp add: get_symbols_def)
  have r: "resolution (ps' ! i) = get_resolution s h (psyms ! i) (symbols (files s h) ! (i + 1))"
    if "int i < nsyms" for i
  proof -
    from that a have "i < length psyms" by linarith
    with ps'(3) that show ?thesis by simp
  qed
  have rest: "\<forall>i<length psyms. \<not> int i < nsyms \<longrightarrow> ps' ! i = psyms ! i"
    using ps'(3) by simp
  show "\<exists>psyms'.
      get_symbols s h nsyms psyms = Inr (LDPS_OK, psyms')
      \<and> length psyms' = length psyms
      \<and> (\<forall>i. int i < nsyms \<longrightarrow>
           (sym_file s (symbols (files s h) ! (i + 1)) = None \<longrightarrow>
              resolution (psyms' ! i) = LDPR_UNDEF)
           \<and> (sym_file s (symbols (files s h) ! (i + 1)) = Some h \<longrightarrow>
              resolution (psyms' ! i) = LDPR_PREVAILING_DEF)
           \<and> (\<forall>f. sym_file s (symbols (files s h) ! (i + 1)) = Some f \<and> f \<noteq> h
                 \<and> is_dso (files s f) \<longrightarrow>
              resolution (psyms' ! i) = LDPR_RESOLVED_DYN)
           \<and> (\<forall>f. sym_file s (symbols (files s h) ! (i + 1)) = Some f \<and> f \<noteq> h
                 \<and> \<not> is_dso (files s f) \<and> is_lto_obj (files s f) \<longrightarrow>
              resolution (psyms' ! i) = LDPR_RESOLVED_IR)
           \<and> (\<forall>f. sym_file s (symbols (files s h) ! (i + 1)) = Some f \<and> f \<noteq> h
                 \<and> \<not> is_dso (files s f) \<and> \<not> is_lto_obj (files s f) \<longrightarrow>
              resolution (psyms' ! i) = LDPR_RESOLVED_EXEC))
      \<and> (\<forall>i<length psyms. \<not> int i < nsyms \<longrightarrow> psyms' ! i = psyms ! i)"
    apply (rule exI [of _ ps'])
    apply (intro conjI allI impI)
    subgoal by (rule g)
    subgoal by (rule ps'(2))
    subgoal by (simp add: r get_resolution_def)
    subgoal by (simp add: r get_resolution_def)
    subgoal by (simp add: r get_resolution_def)
    subgoal by (simp add: r get_resolution_def)
    subgoal by (simp add: r get_resolution_def)
    subgoal using rest by simp
    done
qed

text \<open>
  The query on the live object 0 of the sample session, whose five symbols have the five
  kinds of owner.
\<close>

theorem get_symbols_alive_witness:
  "is_alive (files demo_state 0)
   \<and> nat 5 \<le> length (map demo_psym [''undef'', ''foo'', ''dyn'', ''bar'', ''reg''])
   \<and> nat 5 < length (symbols (files demo_state 0))
   \<and> get_symbols demo_state 0 5 (map demo_psym [''undef'', ''foo'', ''dyn'', ''bar'', ''reg''])
       = Inr (LDPS_OK, [(demo_psym ''undef'')\<lparr>resolution := LDPR_UNDEF\<rparr>,
           (demo_psym ''foo'')\<lparr>resolution := LDPR_PREVAILING_DEF\<rparr>,
           (demo_psym ''dyn'')\<lparr>resolution := LDPR_RESOLVED_DYN\<rparr>,
           (demo_psym ''bar'')\<lparr>resolution := LDPR_RESOLVED_IR\<rparr>,
           (demo_psym ''reg'')\<lparr>resolution := LDPR_RESOLVED_EXEC\<rparr>])
   \<and> sym_file demo_state (symbols (files demo_state 0) ! 1) = None
   \<and> sym_file demo_state (symbols (files demo_state 0) ! 2) = Some 0
   \<and> sym_file demo_state (symbols (files demo_state 0) ! 3) = Some 2
   \<and> is_dso (files demo_state 2)
   \<and> sym_file demo_state (symbols (files demo_state 0) ! 4) = Some 1
   \<and> \<not> is_dso (files demo_state 1) \<and> is_lto_obj (files demo_state 1)
   \<and> sym_file demo_state (symbols (files demo_state 0) ! 5) = Some 3
   \<and> \<not> is_dso (files demo_state 3) \<and> \<not> is_lto_obj (files demo_state 3)"
proof -
  let ?ps = "map demo_psym [''undef'', ''foo'', ''dyn'', ''bar'', ''reg'']"
  have hyps: "is_alive (files demo_state 0) \<and> nat 5 \<le> length ?ps
      \<and> nat 5 < length (symbols (files demo_state 0))"
    by (simp add: demo_state_def demo_files_def)
  have owners: "sym_file demo_state (symbols (files demo_state 0) ! 1) = None
   \<and> sym_file demo_state (symbols (files demo_state 0) ! 2) = Some 0
   \<and> sym_file demo_state (symbols (files demo_state 0) ! 3) = Some 2
   \<and> is_dso (files demo_state 2)
   \<and> sym_file demo_state (symbols (files demo_state 0) ! 4) = Some 1
   \<and> \<not> is_dso (files demo_state 1) \<and> is_lto_obj (files demo_state 1)
   \<and> sym_file demo_state (symbols (files demo_state 0) ! 5) = Some 3
   \<and> \<not> is_dso (files demo_state 3) \<and> \<not> is_lto_obj (files demo_state 3)"
    by (simp add: demo_state_def demo_files_def sym_file_def new_ObjectFile_def)
  from get_symbols_alive [where s = demo_state and h = 0 and nsyms = 5 and psyms = ?ps] hyps
  obtain psyms' where
    r: "get_symbols demo_state 0 5 ?ps = Inr (LDPS_OK, psyms')" "length psyms' = length ?ps"
    and c: "\<forall>i. int i < 5 \<longrightarrow>
           (sym_file demo_state (symbols (files demo_state 0) ! (i + 1)) = None \<longrightarrow>
              resolution (psyms' ! i) = LDPR_UNDEF)
           \<and> (sym_file demo_state (symbols (files demo_state 0) ! (i + 1)) = Some 0 \<longrightarrow>
              resolution (psyms' ! i) = LDPR_PREVAILING_DEF)
           \<and> (\<forall>f. sym_file demo_state (symbols (files demo_state 0) ! (i + 1)) = Some f \<and> f \<noteq> 0
                 \<and> is_dso (files demo_state f) \<longrightarrow>
              resolution (psyms' ! i) = LDPR_RESOLVED_DYN)
           \<and> (\<forall>f. sym_file demo_state (symbols (files demo_state 0) ! (i + 1)) = Some f \<and> f \<noteq> 0
                 \<and> \<not> is_dso (files demo_state f) \<and> is_lto_obj (files demo_state f) \<longrightarrow>
              resolution (psyms' ! i) = LDPR_RESOLVED_IR)
           \<and> (\<forall>f. sym_file demo_state (symbols (files demo_state 0) ! (i + 1)) = Some f \<and> f \<noteq> 0
                 \<and> \<not> is_dso (files demo_state f) \<and> \<not> is_lto_obj (files demo_state f) \<longrightarrow>
              resolution (psyms' ! i) = LDPR_RESOLVED_EXEC)"
    by blast
  have base: "get_symbols demo_state 0 5 ?ps
       = Inr (LDPS_OK, [(demo_psym ''undef'')\<lparr>resolution := LDPR_UNDEF\<rparr>,
           (demo_psym ''foo'')\<lparr>resolution := LDPR_PREVAILING_DEF\<rparr>,
           (demo_psym ''dyn'')\<lparr>resolution := LDPR_RESOLVED_DYN\<rparr>,
           (demo_psym ''bar'')\<lparr>resolution := LDPR_RESOLVED_IR\<rparr>,
           (demo_psym ''reg'')\<lparr>resolution := LDPR_RESOLVED_EXEC\<rparr>])"
    by (simp add: get_symbols_def demo_state_def demo_files_def resolve_loop.simps
      get_resolution_def sym_file_def new_ObjectFile_def)
  from hyps owners base show ?thesis by simp
qed


section \<open>Callbacks and the object set\<close>

lemma mark_dead_other:
  "h \<notin> set hs \<Longrightarrow> mark_dead hs fs h = fs h"
  by (induction hs arbitrary: fs) auto

lemma mark_dead_lto [simp]:
  "is_lto_obj (mark_dead hs fs h) = is_lto_obj (fs h)"
  by (induction hs arbitrary: fs) auto

lemma mark_dead_cases:
  "mark_dead hs fs h =
     (if h \<in> set hs \<and> is_lto_obj (fs h) then (fs h)\<lparr>is_alive := False\<rparr> else fs h)"
proof (induction hs arbitrary: fs)
  case Nil
  then show ?case by simp
next
  case (Cons a hs)
  show ?case by (auto simp: Cons.IH)
qed


lemma extends_refl: "extends s s"
  by (simp add: extends_def)

lemma extends_trans:
  assumes "extends s s1" and "extends s1 s2"
  shows "extends s s2"
proof -
  from assms(1) obtain new1 where 1: "next_handle s \<le> next_handle s1"
    "\<forall>h<next_handle s. files s1 h = files s h" "objs s1 = objs s @ new1"
    "\<forall>h\<in>set new1. next_handle s \<le> h \<and> h < next_handle s1 \<and> \<not> is_lto_obj (files s1 h)"
    by (auto simp: extends_def)
  from assms(2) obtain new2 where 2: "next_handle s1 \<le> next_handle s2"
    "\<forall>h<next_handle s1. files s2 h = files s1 h" "objs s2 = objs s1 @ new2"
    "\<forall>h\<in>set new2. next_handle s1 \<le> h \<and> h < next_handle s2 \<and> \<not> is_lto_obj (files s2 h)"
    by (auto simp: extends_def)
  have a: "next_handle s \<le> next_handle s2" using 1(1) 2(1) by simp
  have b: "\<forall>h<next_handle s. files s2 h = files s h" using 1(1,2) 2(2) by auto
  have c: "objs s2 = objs s @ (new1 @ new2)" using 1(3) 2(3) by simp
  have d: "\<forall>h\<in>set (new1 @ new2). next_handle s \<le> h \<and> h < next_handle s2
      \<and> \<not> is_lto_obj (files s2 h)"
    using 1(1,4) 2(1,2,4) by fastforce
  from a b c d show ?thesis unfolding extends_def by blast
qed

lemma add_input_file_extends:
  "add_input_file path loaded s = Inr (st, s') \<Longrightarrow> extends s s'"
  by (cases loaded)
     (auto simp: add_input_file_def extends_def Let_def resolve_symbols_def
        ObjectFile_create_def new_ObjectFile_def)

lemma do_call_extends: "do_call c s = Inr s' \<Longrightarrow> extends s s'"
proof (cases c)
  case (Call_add_symbols psyms)
  assume "do_call c s = Inr s'"
  with Call_add_symbols show ?thesis
    by (auto simp: add_symbols_def extends_def split: if_splits)
next
  case (Call_add_input_file path loaded)
  assume "do_call c s = Inr s'"
  with Call_add_input_file show ?thesis
    by (auto split: sum.splits dest: add_input_file_extends)
next
  case (Call_get_symbols_v1 h n ps)
  assume "do_call c s = Inr s'"
  with Call_get_symbols_v1 show ?thesis
    by (auto simp: get_symbols_v1_def)
next
  case (Call_get_symbols_v2 h n ps)
  assume "do_call c s = Inr s'"
  with Call_get_symbols_v2 show ?thesis
    by (auto simp: extends_refl split: sum.splits)
next
  case (Call_get_symbols_v3 h n ps)
  assume "do_call c s = Inr s'"
  with Call_get_symbols_v3 show ?thesis
    by (auto simp: extends_refl split: sum.splits)
qed

lemma run_calls_extends: "run_calls cs s = Inr s' \<Longrightarrow> extends s s'"
proof (induction cs arbitrary: s)
  case Nil
  then show ?case by (simp add: extends_refl)
next
  case (Cons c cs)
  then obtain s1 where "do_call c s = Inr s1" "run_calls cs s1 = Inr s'"
    by (auto split: sum.splits)
  then show ?case using Cons.IH do_call_extends extends_trans by blast
qed


section \<open>Retiring the IR objects\<close>

lemma do_lto_Inr:
  assumes "do_lto hook s = Inr s'"
  obtains s1 where "phase s = 1" "all_symbols_read_hook s"
    "run_calls hook (s\<lparr>phase := 2, trace := trace s @ [AllSymbolsRead]\<rparr>) = Inr s1"
    "s' = s1\<lparr>files := mark_dead (objs s1) (files s1),
              objs := filter (\<lambda>file. \<not> is_lto_obj (files s1 file)) (objs s1)\<rparr>"
  using assms
  by (auto simp: do_lto_def Let_def split: if_splits sum.splits)

lemmas demo_eval = demo_compiled_def do_lto_def demo_hook_def demo_state_def demo_files_def
      get_symbols_v2_def get_symbols_def resolve_loop.simps add_input_file_def
      resolve_symbols_def Let_def ObjectFile_create_def new_ObjectFile_def

lemma demo_allocated: "objs_allocated demo_state"
  by (simp add: objs_allocated_def demo_state_def)

lemma demo_run: "do_lto demo_hook demo_state = Inr demo_compiled"
  by (simp add: demo_eval)

lemma demo_compiled_objs: "objs demo_compiled = [3, 5]"
  by (simp add: demo_eval)

text \<open>
  C3: after \<^verbatim>\<open>do_lto\<close> has returned, \<^verbatim>\<open>ctx.objs\<close> holds no object flagged
  \<open>is_lto_obj\<close>, and every IR object that was in \<^verbatim>\<open>ctx.objs\<close> when \<^verbatim>\<open>do_lto\<close> was
  called has its \<open>is_alive\<close> flag false and is no longer in \<^verbatim>\<open>ctx.objs\<close>. (The loop
  that clears the flags runs before \<^verbatim>\<open>erase_if\<close>.)
\<close>

theorem do_lto_retires:
  "do_lto hook s = Inr s' \<and> objs_allocated s \<longrightarrow>
     (\<forall>h\<in>set (objs s'). \<not> is_lto_obj (files s' h))
     \<and> (\<forall>h\<in>set (objs s). is_lto_obj (files s h) \<longrightarrow>
           \<not> is_alive (files s' h) \<and> h \<notin> set (objs s'))"
proof
  assume a: "do_lto hook s = Inr s' \<and> objs_allocated s"
  then obtain s1 where s1: "phase s = 1"
    "run_calls hook (s\<lparr>phase := 2, trace := trace s @ [AllSymbolsRead]\<rparr>) = Inr s1"
    "s' = s1\<lparr>files := mark_dead (objs s1) (files s1),
              objs := filter (\<lambda>file. \<not> is_lto_obj (files s1 file)) (objs s1)\<rparr>"
    by (auto elim: do_lto_Inr)
  from run_calls_extends [OF s1(2)] obtain new where
    e: "\<forall>h<next_handle s. files s1 h = files s h" "objs s1 = objs s @ new"
    by (auto simp: extends_def)
  have 1: "\<forall>h\<in>set (objs s'). \<not> is_lto_obj (files s' h)"
    by (simp add: s1(3))
  have 2: "\<not> is_alive (files s' h) \<and> h \<notin> set (objs s')"
    if "h \<in> set (objs s)" "is_lto_obj (files s h)" for h
  proof -
    from that(1) a have "h < next_handle s" by (simp add: objs_allocated_def)
    with e(1) that(2) have l: "is_lto_obj (files s1 h)" by simp
    from that(1) e(2) have "h \<in> set (objs s1)" by simp
    with l show ?thesis by (simp add: s1(3) mark_dead_cases)
  qed
  from 1 2 show "(\<forall>h\<in>set (objs s'). \<not> is_lto_obj (files s' h))
     \<and> (\<forall>h\<in>set (objs s). is_lto_obj (files s h) \<longrightarrow>
           \<not> is_alive (files s' h) \<and> h \<notin> set (objs s'))"
    by blast
qed

text \<open>
  In the sample session the IR objects 0, 1 and 4 are retired; the regular object 3 and the
  compiled object 5 remain.
\<close>

theorem do_lto_retires_witness:
  "do_lto demo_hook demo_state = Inr demo_compiled
   \<and> objs_allocated demo_state
   \<and> objs demo_state = [0, 1, 3, 4]
   \<and> is_lto_obj (files demo_state 0) \<and> is_lto_obj (files demo_state 1)
   \<and> \<not> is_lto_obj (files demo_state 3) \<and> is_lto_obj (files demo_state 4)
   \<and> is_alive (files demo_state 0) \<and> is_alive (files demo_state 1)
   \<and> objs demo_compiled = [3, 5]
   \<and> \<not> is_lto_obj (files demo_compiled 3) \<and> \<not> is_lto_obj (files demo_compiled 5)
   \<and> \<not> is_alive (files demo_compiled 0) \<and> 0 \<notin> set (objs demo_compiled)
   \<and> \<not> is_alive (files demo_compiled 1) \<and> 1 \<notin> set (objs demo_compiled)
   \<and> \<not> is_alive (files demo_compiled 4) \<and> 4 \<notin> set (objs demo_compiled)"
proof -
  have before: "objs demo_state = [0, 1, 3, 4]
     \<and> is_lto_obj (files demo_state 0) \<and> is_lto_obj (files demo_state 1)
     \<and> \<not> is_lto_obj (files demo_state 3) \<and> is_lto_obj (files demo_state 4)
     \<and> is_alive (files demo_state 0) \<and> is_alive (files demo_state 1)"
    by (simp add: demo_state_def demo_files_def new_ObjectFile_def)
  note r = do_lto_retires [where hook = demo_hook and s = demo_state and s' = demo_compiled]
  from r demo_run demo_allocated
  have none: "\<forall>h\<in>set (objs demo_compiled). \<not> is_lto_obj (files demo_compiled h)"
    and dead: "\<forall>h\<in>set (objs demo_state). is_lto_obj (files demo_state h) \<longrightarrow>
           \<not> is_alive (files demo_compiled h) \<and> h \<notin> set (objs demo_compiled)"
    by blast+
  have after: "objs demo_compiled = [3, 5]" by (rule demo_compiled_objs)
  from none after have a: "\<not> is_lto_obj (files demo_compiled 3)
      \<and> \<not> is_lto_obj (files demo_compiled 5)" by simp
  from dead before have b: "\<not> is_alive (files demo_compiled 0) \<and> 0 \<notin> set (objs demo_compiled)
   \<and> \<not> is_alive (files demo_compiled 1) \<and> 1 \<notin> set (objs demo_compiled)
   \<and> \<not> is_alive (files demo_compiled 4) \<and> 4 \<notin> set (objs demo_compiled)" by simp
  from demo_run demo_allocated before after a b show ?thesis by simp
qed

text \<open>
  C10: \<^verbatim>\<open>do_lto\<close> changes only IR objects. An object that exists when it is called and
  is not flagged \<open>is_lto_obj\<close> is the same afterwards; if it was in \<^verbatim>\<open>ctx.objs\<close> it
  is still there, with the \<open>is_alive\<close> flag it had; and \<^verbatim>\<open>ctx.objs\<close> afterwards is
  the old vector without its IR objects, in the old order, followed by the objects the
  backend handed back.
\<close>

theorem do_lto_frame:
  "do_lto hook s = Inr s' \<and> objs_allocated s \<longrightarrow>
     (\<forall>h<next_handle s. \<not> is_lto_obj (files s h) \<longrightarrow> files s' h = files s h)
     \<and> (\<forall>h\<in>set (objs s). \<not> is_lto_obj (files s h) \<longrightarrow>
           h \<in> set (objs s') \<and> is_alive (files s' h) = is_alive (files s h))
     \<and> (\<exists>new. objs s' = filter (\<lambda>h. \<not> is_lto_obj (files s h)) (objs s) @ new
           \<and> (\<forall>h\<in>set new. next_handle s \<le> h))"
proof
  assume a: "do_lto hook s = Inr s' \<and> objs_allocated s"
  then obtain s1 where s1: "phase s = 1"
    "run_calls hook (s\<lparr>phase := 2, trace := trace s @ [AllSymbolsRead]\<rparr>) = Inr s1"
    "s' = s1\<lparr>files := mark_dead (objs s1) (files s1),
              objs := filter (\<lambda>file. \<not> is_lto_obj (files s1 file)) (objs s1)\<rparr>"
    by (auto elim: do_lto_Inr)
  from run_calls_extends [OF s1(2)] obtain new where
    e: "\<forall>h<next_handle s. files s1 h = files s h" "objs s1 = objs s @ new"
      "\<forall>h\<in>set new. next_handle s \<le> h \<and> \<not> is_lto_obj (files s1 h)"
    by (auto simp: extends_def)
  have old: "\<forall>h\<in>set (objs s). files s1 h = files s h"
    using a e(1) by (simp add: objs_allocated_def)
  have 1: "\<forall>h<next_handle s. \<not> is_lto_obj (files s h) \<longrightarrow> files s' h = files s h"
    using e(1) by (simp add: s1(3) mark_dead_cases)
  have f: "filter (\<lambda>file. \<not> is_lto_obj (files s1 file)) (objs s)
      = filter (\<lambda>h. \<not> is_lto_obj (files s h)) (objs s)"
    using old by (auto intro: filter_cong)
  have g: "filter (\<lambda>file. \<not> is_lto_obj (files s1 file)) new = new"
    using e(3) by (auto intro: filter_True)
  have 3: "objs s' = filter (\<lambda>h. \<not> is_lto_obj (files s h)) (objs s) @ new"
    by (simp add: s1(3) e(2) f g)
  have 2: "\<forall>h\<in>set (objs s). \<not> is_lto_obj (files s h) \<longrightarrow>
           h \<in> set (objs s') \<and> is_alive (files s' h) = is_alive (files s h)"
  proof (intro ballI impI)
    fix h assume h: "h \<in> set (objs s)" "\<not> is_lto_obj (files s h)"
    then have "h \<in> set (objs s')" by (simp add: 3)
    moreover from h a have "h < next_handle s" by (simp add: objs_allocated_def)
    with 1 h(2) have "files s' h = files s h" by simp
    ultimately show "h \<in> set (objs s') \<and> is_alive (files s' h) = is_alive (files s h)"
      by simp
  qed
  from 1 2 3 e(3) show "(\<forall>h<next_handle s. \<not> is_lto_obj (files s h) \<longrightarrow> files s' h = files s h)
     \<and> (\<forall>h\<in>set (objs s). \<not> is_lto_obj (files s h) \<longrightarrow>
           h \<in> set (objs s') \<and> is_alive (files s' h) = is_alive (files s h))
     \<and> (\<exists>new. objs s' = filter (\<lambda>h. \<not> is_lto_obj (files s h)) (objs s) @ new
           \<and> (\<forall>h\<in>set new. next_handle s \<le> h))"
    by blast
qed

text \<open>
  In the sample session the regular object 3 and the shared object 2 are unchanged, and 3
  keeps its place before the new object 5.
\<close>

theorem do_lto_frame_witness:
  "do_lto demo_hook demo_state = Inr demo_compiled
   \<and> objs_allocated demo_state
   \<and> next_handle demo_state = 5
   \<and> objs demo_state = [0, 1, 3, 4]
   \<and> filter (\<lambda>h. \<not> is_lto_obj (files demo_state h)) (objs demo_state) = [3]
   \<and> objs demo_compiled = [3] @ [5]
   \<and> files demo_compiled 3 = files demo_state 3
   \<and> files demo_compiled 2 = files demo_state 2
   \<and> is_alive (files demo_compiled 3) = is_alive (files demo_state 3)
   \<and> 3 \<in> set (objs demo_compiled)"
proof -
  have before: "next_handle demo_state = 5 \<and> objs demo_state = [0, 1, 3, 4]
     \<and> filter (\<lambda>h. \<not> is_lto_obj (files demo_state h)) (objs demo_state) = [3]
     \<and> \<not> is_lto_obj (files demo_state 3) \<and> \<not> is_lto_obj (files demo_state 2)"
    by (simp add: demo_state_def demo_files_def new_ObjectFile_def)
  note r = do_lto_frame [where hook = demo_hook and s = demo_state and s' = demo_compiled]
  from r demo_run demo_allocated
  have same: "\<forall>h<next_handle demo_state. \<not> is_lto_obj (files demo_state h) \<longrightarrow>
        files demo_compiled h = files demo_state h"
    and stay: "\<forall>h\<in>set (objs demo_state). \<not> is_lto_obj (files demo_state h) \<longrightarrow>
           h \<in> set (objs demo_compiled)
           \<and> is_alive (files demo_compiled h) = is_alive (files demo_state h)"
    by blast+
  from same before have a: "files demo_compiled 3 = files demo_state 3
      \<and> files demo_compiled 2 = files demo_state 2" by simp
  from stay before have b: "3 \<in> set (objs demo_compiled)
      \<and> is_alive (files demo_compiled 3) = is_alive (files demo_state 3)" by simp
  have after: "objs demo_compiled = [3] @ [5]" by (simp add: demo_compiled_objs)
  from demo_run demo_allocated before after a b show ?thesis by blast
qed


section \<open>What ingestion records\<close>

lemma push_symbols_eq:
  "push_symbols E ps (es, ss)
     = (es @ map (to_elf_sym E) ps, ss @ map (\<lambda>p. Interned (name p)) ps)"
  by (induction ps arbitrary: es ss) auto

lemma do_call_plugin_symbols:
  "do_call c s = Inr s' \<Longrightarrow> plugin_symbols s' = delivered [c] (plugin_symbols s)"
  by (cases c)
     (auto simp: add_symbols_def add_input_file_def resolve_symbols_def Let_def
        get_symbols_v1_def split: if_splits sum.splits option.splits)

lemma do_call_target: "do_call c s = Inr s' \<Longrightarrow> target s' = target s"
  by (cases c)
     (auto simp: add_symbols_def add_input_file_def resolve_symbols_def Let_def
        get_symbols_v1_def split: if_splits sum.splits option.splits)

lemma run_calls_target: "run_calls cs s = Inr s' \<Longrightarrow> target s' = target s"
proof (induction cs arbitrary: s)
  case Nil
  then show ?case by simp
next
  case (Cons c cs)
  then obtain s1 where s1: "do_call c s = Inr s1" "run_calls cs s1 = Inr s'"
    by (auto split: sum.splits)
  from Cons.IH [OF s1(2)] do_call_target [OF s1(1)] show ?case by simp
qed

lemma delivered_Cons: "delivered (c # cs) left = delivered cs (delivered [c] left)"
  by (cases c) auto

lemma run_calls_plugin_symbols:
  "run_calls cs s = Inr s' \<Longrightarrow> plugin_symbols s' = delivered cs (plugin_symbols s)"
proof (induction cs arbitrary: s)
  case Nil
  then show ?case by simp
next
  case (Cons c cs)
  then obtain s1 where s1: "do_call c s = Inr s1" "run_calls cs s1 = Inr s'"
    by (auto split: sum.splits)
  from Cons.IH [OF s1(2)] do_call_plugin_symbols [OF s1(1)]
  show ?case by (simp add: delivered_Cons [of c cs])
qed

lemma foldl_register_frame:
  "plugin_symbols (foldl register s rs) = plugin_symbols s
   \<and> next_handle (foldl register s rs) = next_handle s
   \<and> files (foldl register s rs) = files s
   \<and> objs (foldl register s rs) = objs s
   \<and> phase (foldl register s rs) = phase s
   \<and> trace (foldl register s rs) = trace s
   \<and> flag (foldl register s rs) = flag s
   \<and> arg (foldl register s rs) = arg s
   \<and> target (foldl register s rs) = target s
   \<and> file_priority (foldl register s rs) = file_priority s
   \<and> ctx_file_priority (foldl register s rs) = ctx_file_priority s
   \<and> symbol_file (foldl register s rs) = symbol_file s"
proof (induction rs arbitrary: s)
  case Nil
  then show ?case by simp
next
  case (Cons r rs)
  show ?case by (cases r) (simp_all add: Cons.IH)
qed

lemma load_plugin_Inr:
  assumes "load_plugin lib s = Inr s'"
  shows "phase s = 0" and "dlopen_ok lib" and "has_onload lib"
    and "s' = foldl register
          (s\<lparr>phase := 1, dlopen_handle := True,
             trace := trace s @ [Dlopen (plugin (arg s)), Dlsym ''onload'',
               Onload (capability_table (arg s))]\<rparr>) (onload_calls lib)"
  using assms by (auto simp: load_plugin_def Let_def split: if_splits)

lemma call_once_frame:
  assumes "call_once_load_plugin lib s = Inr s'"
  shows "plugin_symbols s' = plugin_symbols s" and "next_handle s' = next_handle s"
    and "files s' = files s" and "objs s' = objs s" and "arg s' = arg s"
    and "file_priority s' = file_priority s" and "ctx_file_priority s' = ctx_file_priority s"
    and "symbol_file s' = symbol_file s" and "target s' = target s"
  using assms
  by (auto simp: call_once_load_plugin_def foldl_register_frame
      split: if_splits sum.splits dest!: load_plugin_Inr(4))

lemma read_lto_object_Inr:
  assumes "read_lto_object lib reply m s = Inr (obj, s')"
  obtains s0 s1 where "plugin (arg s) \<noteq> []" "call_once_load_plugin lib s = Inr s0"
    "obj = next_handle s0" "open_fd reply \<noteq> - 1" "claim_file_hook s0"
    "run_calls (claim_calls reply)
       ((snd (create_object m s0))\<lparr>trace := trace s0 @ [ClaimFile (create_plugin_file reply m obj)]\<rparr>)
     = Inr s1"
    "claimed reply \<noteq> 0" "s' = init_symbols obj s1"
  using assms
  by (auto simp: read_lto_object_def create_object_def create_plugin_file_def Let_def
      split: if_splits sum.splits)

lemma create_object_frame:
  "fst (create_object m s) = next_handle s"
  "next_handle (snd (create_object m s)) = Suc (next_handle s)"
  "files (snd (create_object m s)) (next_handle s)
     = new_ObjectFile\<lparr>symbols := [Anon], first_global := 1, is_lto_obj := True, mf := Some m\<rparr>"
  "h \<noteq> next_handle s \<Longrightarrow> files (snd (create_object m s)) h = files s h"
  "plugin_symbols (snd (create_object m s)) = plugin_symbols s"
  "objs (snd (create_object m s)) = objs s"
  "phase (snd (create_object m s)) = phase s"
  "trace (snd (create_object m s)) = trace s"
  "target (snd (create_object m s)) = target s"
  by (simp_all add: create_object_def Let_def new_ObjectFile_def)

lemmas ingest_eval = demo_ingested_def read_lto_object_def process_start_def demo_args_def
  demo_lib_def demo_reply_def demo_mf_def call_once_load_plugin_def load_plugin_def
  create_object_def create_plugin_file_def init_symbols_def add_symbols_def Let_def
  new_ObjectFile_def resize_def

lemma demo_ingest_run:
  "read_lto_object demo_lib demo_reply demo_mf (process_start X86_64 demo_args 2)
     = Inr (0, demo_ingested)"
  by (simp add: ingest_eval)

text \<open>
  C9: the object \<^verbatim>\<open>read_lto_object\<close> returns has one symbol per plugin symbol record
  delivered during the claim, after the null entry at index 0; its symbol list, its ELF
  symbols (made by \<^verbatim>\<open>to_elf_sym\<close> for the target of the link), \<^verbatim>\<open>sym_fragments\<close> and
  \<^verbatim>\<open>symvers\<close> all have that many entries plus one, and \<^verbatim>\<open>plugin_symbols\<close> is empty
  again.
\<close>

theorem read_lto_object_counts:
  "read_lto_object lib reply m s = Inr (obj, s') \<longrightarrow>
     symbols (files s' obj)
       = Anon # map (\<lambda>p. Interned (name p)) (delivered (claim_calls reply) (plugin_symbols s))
     \<and> elf_syms (files s' obj)
       = ElfSym_zero
           # map (to_elf_sym (target s)) (delivered (claim_calls reply) (plugin_symbols s))
     \<and> length (symbols (files s' obj))
       = length (delivered (claim_calls reply) (plugin_symbols s)) + 1
     \<and> length (elf_syms (files s' obj)) = length (symbols (files s' obj))
     \<and> length (sym_fragments (files s' obj)) = length (symbols (files s' obj))
     \<and> length (symvers (files s' obj)) = length (symbols (files s' obj))
     \<and> plugin_symbols s' = []"
proof
  assume a: "read_lto_object lib reply m s = Inr (obj, s')"
  then obtain s0 s1 where r: "call_once_load_plugin lib s = Inr s0" "obj = next_handle s0"
    "run_calls (claim_calls reply)
       ((snd (create_object m s0))\<lparr>trace := trace s0 @ [ClaimFile (create_plugin_file reply m obj)]\<rparr>)
     = Inr s1"
    "s' = init_symbols obj s1"
    by (auto elim: read_lto_object_Inr)
  let ?c = "(snd (create_object m s0))\<lparr>trace := trace s0 @ [ClaimFile (create_plugin_file reply m obj)]\<rparr>"
  let ?D = "delivered (claim_calls reply) (plugin_symbols s)"
  have ps: "plugin_symbols s1 = ?D"
    using run_calls_plugin_symbols [OF r(3)] call_once_frame(1) [OF r(1)]
    by (simp add: create_object_frame)
  from run_calls_extends [OF r(3)] have "files s1 obj = files ?c obj"
    by (simp add: extends_def create_object_frame r(2))
  then have sy: "symbols (files s1 obj) = [Anon]"
    by (simp add: create_object_frame r(2))
  have tg: "target s1 = target s"
    using run_calls_target [OF r(3)] call_once_frame(9) [OF r(1)]
    by (simp add: create_object_frame)
  have 1: "symbols (files s' obj) = Anon # map (\<lambda>p. Interned (name p)) ?D"
    and 2: "elf_syms (files s' obj) = ElfSym_zero # map (to_elf_sym (target s)) ?D"
    and 3: "length (sym_fragments (files s' obj)) = length ?D + 1"
    and 4: "length (symvers (files s' obj)) = length ?D + 1"
    and 5: "plugin_symbols s' = []"
    by (simp_all add: r(4) init_symbols_def push_symbols_eq ps sy tg resize_def Let_def)
  from 1 2 3 4 5 show "symbols (files s' obj)
       = Anon # map (\<lambda>p. Interned (name p)) (delivered (claim_calls reply) (plugin_symbols s))
     \<and> elf_syms (files s' obj)
       = ElfSym_zero
           # map (to_elf_sym (target s)) (delivered (claim_calls reply) (plugin_symbols s))
     \<and> length (symbols (files s' obj))
       = length (delivered (claim_calls reply) (plugin_symbols s)) + 1
     \<and> length (elf_syms (files s' obj)) = length (symbols (files s' obj))
     \<and> length (sym_fragments (files s' obj)) = length (symbols (files s' obj))
     \<and> length (symvers (files s' obj)) = length (symbols (files s' obj))
     \<and> plugin_symbols s' = []"
    by simp
qed

text \<open>The sample ingestion: two records delivered, three entries everywhere.\<close>

theorem read_lto_object_counts_witness:
  "read_lto_object demo_lib demo_reply demo_mf (process_start X86_64 demo_args 2)
     = Inr (0, demo_ingested)
   \<and> delivered (claim_calls demo_reply) (plugin_symbols (process_start X86_64 demo_args 2))
     = [demo_foo, demo_bar]
   \<and> symbols (files demo_ingested 0) = [Anon, Interned ''foo'', Interned ''bar'']
   \<and> target (process_start X86_64 demo_args 2) = X86_64
   \<and> elf_syms (files demo_ingested 0)
       = [ElfSym_zero, to_elf_sym X86_64 demo_foo, to_elf_sym X86_64 demo_bar]
   \<and> length (symbols (files demo_ingested 0)) = 3
   \<and> length (elf_syms (files demo_ingested 0)) = 3
   \<and> length (sym_fragments (files demo_ingested 0)) = 3
   \<and> length (symvers (files demo_ingested 0)) = 3
   \<and> plugin_symbols demo_ingested = []"
proof -
  have d: "delivered (claim_calls demo_reply) (plugin_symbols (process_start X86_64 demo_args 2))
     = [demo_foo, demo_bar]"
    by (simp add: demo_reply_def)
  note r = read_lto_object_counts [where lib = demo_lib and reply = demo_reply and m = demo_mf
      and s = "process_start X86_64 demo_args 2" and obj = 0 and s' = demo_ingested]
  have tg: "target (process_start X86_64 demo_args 2) = X86_64"
    by (simp add: process_start_def)
  from r demo_ingest_run d tg show ?thesis
    by (simp add: demo_foo_def demo_bar_def)
qed


section \<open>The requested count of a resolution query\<close>

lemma preempt_loop_error: "preempt_loop i nsyms psyms = Inl e \<Longrightarrow> e = OutOfRange"
proof (induction i nsyms psyms rule: preempt_loop.induct)
  case (1 i nsyms psyms)
  from "1.prems" show ?case
    by (subst (asm) preempt_loop.simps) (auto split: if_splits dest: "1.IH")
qed

lemma resolve_loop_error: "resolve_loop s h i nsyms psyms = Inl e \<Longrightarrow> e = OutOfRange"
proof (induction s h i nsyms psyms rule: resolve_loop.induct)
  case (1 s h i nsyms psyms)
  from "1.prems" show ?case
    by (subst (asm) resolve_loop.simps) (auto split: if_splits dest: "1.IH")
qed

lemma get_symbols_error: "get_symbols s h nsyms psyms = Inl e \<Longrightarrow> e = OutOfRange"
  by (auto simp: get_symbols_def split: if_splits sum.splits
      dest: preempt_loop_error resolve_loop_error)

lemma sym_file_files_upd: "sym_file (s\<lparr>files := f\<rparr>) symb = sym_file s symb"
  by (cases symb) (simp_all add: sym_file_def)

lemma get_resolution_symbols_upd:
  "get_resolution (s\<lparr>files := (files s)(h := (files s h)\<lparr>symbols := syms\<rparr>)\<rparr>) h p symb
     = get_resolution s h p symb"
  by (cases "sym_file s symb") (simp_all add: get_resolution_def sym_file_files_upd)

text \<open>
  \<^verbatim>\<open>get_symbols\<close> does not compare the requested count with the number of symbols the
  object records. The live object 0 of the sample session records five symbols after its
  null entry: a query for two of them returns \<^verbatim>\<open>LDPS_OK\<close> and fails no assertion, and
  a query for six indexes \<^verbatim>\<open>file.symbols[6]\<close>, past the end of the vector.
\<close>

theorem get_symbols_count_unchecked:
  "length (symbols (files demo_state 0)) = 5 + 1
   \<and> is_alive (files demo_state 0)
   \<and> get_symbols demo_state 0 2 (map demo_psym [''undef'', ''foo''])
       = Inr (LDPS_OK, [(demo_psym ''undef'')\<lparr>resolution := LDPR_UNDEF\<rparr>,
           (demo_psym ''foo'')\<lparr>resolution := LDPR_PREVAILING_DEF\<rparr>])
   \<and> get_symbols demo_state 0 6
         (map demo_psym [''undef'', ''foo'', ''dyn'', ''bar'', ''reg'', ''more''])
       = Inl OutOfRange"
  by (simp add: get_symbols_def demo_state_def demo_files_def resolve_loop.simps
      get_resolution_def sym_file_def new_ObjectFile_def)

text \<open>
  C7, as the code has it: no resolution query fails an assertion, whatever its count. A
  query on a live object whose count is at most the number of symbols recorded (and
  whose buffer holds that many records) returns \<^verbatim>\<open>LDPS_OK\<close>, also when the count is
  smaller than the recorded one, and it reads no symbol record past index \<open>nsyms\<close>:
  replacing the records after that index by any others leaves its result unchanged.
\<close>

theorem get_symbols_count_within:
  "get_symbols s h nsyms psyms \<noteq> Inl AssertFailed
   \<and> (is_alive (files t g) \<and> nat n \<le> length q \<and> nat n < length (symbols (files t g)) \<longrightarrow>
        (\<exists>q'. get_symbols t g n q = Inr (LDPS_OK, q'))
        \<and> get_symbols
             (t\<lparr>files := (files t)(g := (files t g)\<lparr>symbols :=
                  take (nat n + 1) (symbols (files t g)) @ other\<rparr>)\<rparr>) g n q
           = get_symbols t g n q)"
proof (intro conjI impI)
  show "get_symbols s h nsyms psyms \<noteq> Inl AssertFailed"
    using get_symbols_error [of s h nsyms psyms AssertFailed] by auto
next
  assume a: "is_alive (files t g) \<and> nat n \<le> length q \<and> nat n < length (symbols (files t g))"
  let ?syms = "symbols (files t g)"
  let ?t = "t\<lparr>files := (files t)(g := (files t g)\<lparr>symbols := take (nat n + 1) ?syms @ other\<rparr>)\<rparr>"
  from a obtain q1 where q1: "resolve_loop t g 0 n q = Inr q1" "length q1 = length q"
    "\<forall>j<length q. q1 ! j =
        (if 0 \<le> j \<and> int j < n
         then (q ! j)\<lparr>resolution := get_resolution t g (q ! j) (?syms ! (j + 1))\<rparr>
         else q ! j)"
    using resolve_loop_Inr [of n q t g 0] by blast
  have len: "nat n < length (symbols (files ?t g))" using a by simp
  from a len obtain q2 where q2: "resolve_loop ?t g 0 n q = Inr q2" "length q2 = length q"
    "\<forall>j<length q. q2 ! j =
        (if 0 \<le> j \<and> int j < n
         then (q ! j)\<lparr>resolution :=
                get_resolution ?t g (q ! j) (symbols (files ?t g) ! (j + 1))\<rparr>
         else q ! j)"
    using resolve_loop_Inr [of n q ?t g 0] by blast
  have same: "symbols (files ?t g) ! (j + 1) = ?syms ! (j + 1)" if "int j < n" for j
  proof -
    from that have "j + 1 < nat n + 1" by linarith
    moreover from a have "nat n + 1 \<le> length ?syms" by simp
    ultimately show ?thesis by (simp add: nth_append)
  qed
  have "q2 = q1"
  proof (rule nth_equalityI)
    show "length q2 = length q1" by (simp add: q1(2) q2(2))
  next
    fix j assume "j < length q2"
    then have j: "j < length q" by (simp add: q2(2))
    show "q2 ! j = q1 ! j"
    proof (cases "int j < n")
      case True
      with j q1(3) q2(3) same [OF True] show ?thesis
        by (simp add: get_resolution_symbols_upd)
    next
      case False
      with j q1(3) q2(3) show ?thesis by simp
    qed
  qed
  with a q1(1) q2(1) show "get_symbols ?t g n q = get_symbols t g n q"
    by (simp add: get_symbols_def)
  from a q1(1) show "\<exists>q'. get_symbols t g n q = Inr (LDPS_OK, q')"
    by (simp add: get_symbols_def)
qed

text \<open>
  A query for two of the five symbols of object 0, with the records after the second
  replaced.
\<close>

theorem get_symbols_count_within_witness:
  "is_alive (files demo_state 0)
   \<and> nat 2 \<le> length (map demo_psym [''undef'', ''foo''])
   \<and> nat 2 < length (symbols (files demo_state 0))
   \<and> get_symbols demo_state 0 2 (map demo_psym [''undef'', ''foo''])
       = Inr (LDPS_OK, [(demo_psym ''undef'')\<lparr>resolution := LDPR_UNDEF\<rparr>,
           (demo_psym ''foo'')\<lparr>resolution := LDPR_PREVAILING_DEF\<rparr>])
   \<and> get_symbols
        (demo_state\<lparr>files := (files demo_state)(0 := (files demo_state 0)\<lparr>symbols :=
            take (nat 2 + 1) (symbols (files demo_state 0)) @ [Interned ''other'']\<rparr>)\<rparr>)
        0 2 (map demo_psym [''undef'', ''foo''])
       = Inr (LDPS_OK, [(demo_psym ''undef'')\<lparr>resolution := LDPR_UNDEF\<rparr>,
           (demo_psym ''foo'')\<lparr>resolution := LDPR_PREVAILING_DEF\<rparr>])
   \<and> get_symbols demo_state 4 7 [] \<noteq> Inl AssertFailed"
proof -
  let ?q = "map demo_psym [''undef'', ''foo'']"
  have hyps: "is_alive (files demo_state 0) \<and> nat 2 \<le> length ?q
      \<and> nat 2 < length (symbols (files demo_state 0))"
    by (simp add: demo_state_def demo_files_def)
  have base: "get_symbols demo_state 0 2 ?q
       = Inr (LDPS_OK, [(demo_psym ''undef'')\<lparr>resolution := LDPR_UNDEF\<rparr>,
           (demo_psym ''foo'')\<lparr>resolution := LDPR_PREVAILING_DEF\<rparr>])"
    by (simp add: get_symbols_def demo_state_def demo_files_def resolve_loop.simps
      get_resolution_def sym_file_def new_ObjectFile_def)
  note r = get_symbols_count_within [where s = demo_state and h = 4 and nsyms = 7
      and psyms = "[]" and t = demo_state and g = 0 and n = 2 and q = ?q
      and other = "[Interned ''other'']"]
  from r hyps have "get_symbols
        (demo_state\<lparr>files := (files demo_state)(0 := (files demo_state 0)\<lparr>symbols :=
            take (nat 2 + 1) (symbols (files demo_state 0)) @ [Interned ''other'']\<rparr>)\<rparr>)
        0 2 ?q = get_symbols demo_state 0 2 ?q"
    and "get_symbols demo_state 4 7 [] \<noteq> Inl AssertFailed"
    by blast+
  with hyps base show ?thesis by simp
qed


section \<open>Phases and the loader\<close>

lemma do_call_statics:
  assumes "do_call c s = Inr s'"
  shows "phase s' = phase s" and "flag s' = flag s" and "trace s' = trace s"
    and "arg s' = arg s" and "claim_file_hook s' = claim_file_hook s"
    and "all_symbols_read_hook s' = all_symbols_read_hook s"
    and "cleanup_hook s' = cleanup_hook s"
  using assms
  by (cases c;
      auto simp: add_symbols_def add_input_file_def resolve_symbols_def Let_def
        get_symbols_v1_def split: if_splits sum.splits option.splits)+

lemma run_calls_statics:
  assumes "run_calls cs s = Inr s'"
  shows "phase s' = phase s \<and> flag s' = flag s \<and> trace s' = trace s \<and> arg s' = arg s"
  using assms
proof (induction cs arbitrary: s)
  case Nil
  then show ?case by simp
next
  case (Cons c cs)
  then obtain s1 where s1: "do_call c s = Inr s1" "run_calls cs s1 = Inr s'"
    by (auto split: sum.splits)
  from Cons.IH [OF s1(2)] do_call_statics(1-4) [OF s1(1)] show ?case by simp
qed

lemma init_symbols_statics:
  "phase (init_symbols obj s) = phase s" "flag (init_symbols obj s) = flag s"
  "trace (init_symbols obj s) = trace s" "arg (init_symbols obj s) = arg s"
  by (simp_all add: init_symbols_def Let_def split: prod.splits)

lemma create_object_statics:
  "flag (snd (create_object m s)) = flag s" "arg (snd (create_object m s)) = arg s"
  by (simp_all add: create_object_def Let_def)

lemma call_once_statics:
  assumes "call_once_load_plugin lib s = Inr s0"
  shows "flag s0" and "arg s0 = arg s"
    and "flag s \<Longrightarrow> s0 = s"
    and "\<not> flag s \<Longrightarrow> phase s = 0 \<and> phase s0 = 1 \<and> dlopen_ok lib \<and> has_onload lib
          \<and> trace s0 = trace s @ [Dlopen (plugin (arg s)), Dlsym ''onload'',
               Onload (capability_table (arg s))]"
proof -
  have old: "s0 = s" if "flag s"
    using assms that by (simp add: call_once_load_plugin_def)
  have new: "\<exists>s1. load_plugin lib s = Inr s1 \<and> s0 = s1\<lparr>flag := True\<rparr>" if "\<not> flag s"
    using assms that by (auto simp: call_once_load_plugin_def split: sum.splits)
  show "flag s \<Longrightarrow> s0 = s" by (rule old)
  show "flag s0" using old new by (cases "flag s") auto
  show "arg s0 = arg s"
    using old new by (cases "flag s") (auto dest!: load_plugin_Inr(4) simp: foldl_register_frame)
  show "phase s = 0 \<and> phase s0 = 1 \<and> dlopen_ok lib \<and> has_onload lib
          \<and> trace s0 = trace s @ [Dlopen (plugin (arg s)), Dlsym ''onload'',
               Onload (capability_table (arg s))]" if "\<not> flag s"
  proof -
    from new [OF that] obtain s1 where s1: "load_plugin lib s = Inr s1" "s0 = s1\<lparr>flag := True\<rparr>"
      by blast
    from load_plugin_Inr [OF s1(1)] s1(2) show ?thesis
      by (simp add: foldl_register_frame)
  qed
qed

lemma read_lto_object_statics:
  assumes "read_lto_object lib reply m s = Inr (obj, s')"
  shows "flag s'" and "arg s' = arg s"
    and "phase s' = (if flag s then phase s else 1)"
    and "\<not> flag s \<Longrightarrow> phase s = 0"
    and "filter is_load (trace s') =
           filter is_load (trace s) @
             (if flag s then []
              else [Dlopen (plugin (arg s)), Dlsym ''onload'', Onload (capability_table (arg s))])"
proof -
  from assms obtain s0 s1 where r: "call_once_load_plugin lib s = Inr s0"
    "run_calls (claim_calls reply)
       ((snd (create_object m s0))\<lparr>trace := trace s0 @ [ClaimFile (create_plugin_file reply m obj)]\<rparr>)
     = Inr s1"
    "s' = init_symbols obj s1"
    by (auto elim: read_lto_object_Inr)
  note c = call_once_statics [OF r(1)]
  from run_calls_statics [OF r(2)]
  have s1: "phase s1 = phase s0" "flag s1 = flag s0"
    "trace s1 = trace s0 @ [ClaimFile (create_plugin_file reply m obj)]" "arg s1 = arg s0"
    by (simp_all add: create_object_frame create_object_statics)
  show "flag s'" using c(1) s1(2) by (simp add: r(3) init_symbols_statics)
  show "arg s' = arg s" using c(2) s1(4) by (simp add: r(3) init_symbols_statics)
  show "phase s' = (if flag s then phase s else 1)"
    using c(3,4) s1(1) by (auto simp: r(3) init_symbols_statics)
  show "\<not> flag s \<Longrightarrow> phase s = 0" using c(4) by simp
  show "filter is_load (trace s') =
           filter is_load (trace s) @
             (if flag s then []
              else [Dlopen (plugin (arg s)), Dlsym ''onload'', Onload (capability_table (arg s))])"
    using c(3,4) s1(3) by (auto simp: r(3) init_symbols_statics)
qed

lemma do_lto_statics:
  assumes "do_lto hook s = Inr s'"
  shows "phase s = 1" and "phase s' = 2" and "flag s' = flag s" and "arg s' = arg s"
    and "trace s' = trace s @ [AllSymbolsRead]"
proof -
  from assms obtain s1 where s1: "phase s = 1"
    "run_calls hook (s\<lparr>phase := 2, trace := trace s @ [AllSymbolsRead]\<rparr>) = Inr s1"
    "s' = s1\<lparr>files := mark_dead (objs s1) (files s1),
              objs := filter (\<lambda>file. \<not> is_lto_obj (files s1 file)) (objs s1)\<rparr>"
    by (auto elim: do_lto_Inr)
  from run_calls_statics [OF s1(2)] s1(1,3)
  show "phase s = 1" and "phase s' = 2" and "flag s' = flag s" and "arg s' = arg s"
    and "trace s' = trace s @ [AllSymbolsRead]"
    by simp_all
qed

lemma lto_cleanup_statics:
  "phase (lto_cleanup s) = phase s" "flag (lto_cleanup s) = flag s"
  "arg (lto_cleanup s) = arg s" "filter is_load (trace (lto_cleanup s)) = filter is_load (trace s)"
  by (simp_all add: lto_cleanup_def)

lemma api_statics:
  assumes "api lib c s = Inr s'"
  shows "flag s' = (flag s \<or> is_read c) \<and> arg s' = arg s \<and>
    filter is_load (trace s') =
      filter is_load (trace s) @ (if is_read c \<and> \<not> flag s then load_sequence (arg s) else []) \<and>
    phase s' = (if is_do_lto c then 2 else if is_read c \<and> \<not> flag s then 1 else phase s) \<and>
    (is_do_lto c \<longrightarrow> phase s = 1) \<and> (is_read c \<longrightarrow> \<not> flag s \<longrightarrow> phase s = 0)"
proof (cases c)
  case (Read_lto_object reply m)
  with assms obtain obj where r: "read_lto_object lib reply m s = Inr (obj, s')"
    by (auto split: sum.splits)
  from read_lto_object_statics [OF r] Read_lto_object
  show ?thesis by (auto simp: load_sequence_def)
next
  case (Do_lto hook)
  with assms have r: "do_lto hook s = Inr s'" by simp
  from do_lto_statics [OF r] Do_lto
  show ?thesis by simp
next
  case Lto_cleanup
  with assms have "s' = lto_cleanup s" by simp
  with Lto_cleanup show ?thesis by (simp add: lto_cleanup_statics)
next
  case (Linker_core f)
  with assms show ?thesis by auto
qed

lemma run_load_events:
  "run lib cs s = Inr s' \<Longrightarrow>
     flag s' = (flag s \<or> (\<exists>c\<in>set cs. is_read c)) \<and> arg s' = arg s
     \<and> filter is_load (trace s') =
         filter is_load (trace s) @
           (if (\<exists>c\<in>set cs. is_read c) \<and> \<not> flag s then load_sequence (arg s) else [])"
proof (induction cs arbitrary: s)
  case Nil
  then show ?case by simp
next
  case (Cons c cs)
  then obtain s1 where s1: "api lib c s = Inr s1" "run lib cs s1 = Inr s'"
    by (auto split: sum.splits)
  from Cons.IH [OF s1(2)] api_statics [OF s1(1)] show ?case by auto
qed




lemma demo_ingest2_run:
  "read_lto_object demo_lib demo_reply_b demo_mf_b demo_ingested = Inr (1, demo_ingested2)"
  by (simp add: demo_ingested2_def demo_reply_b_def demo_mf_b_def ingest_eval)

lemma demo_ingested_flag: "flag demo_ingested"
  by (simp add: ingest_eval)

lemma demo_linked_run: "run demo_lib demo_calls (process_start X86_64 demo_args 2) = Inr demo_linked"
  by (simp add: demo_linked_def demo_calls_def demo_reply_b_def demo_mf_b_def demo_core_def
      ingest_eval do_lto_def get_symbols_v2_def get_symbols_def resolve_loop.simps
      add_input_file_def resolve_symbols_def ObjectFile_create_def lto_cleanup_def
      demo_foo_def demo_bar_def)

lemma demo_linked_trace:
  "trace demo_linked =
     [Dlopen ''liblto_plugin.so'', Dlsym ''onload'', Onload (capability_table demo_args),
      ClaimFile \<lparr>pif_name = ''liba.a'', pif_fd = 3, pif_offset = 68, pif_filesize = 1024,
                 pif_handle = 0\<rparr>,
      ClaimFile \<lparr>pif_name = ''b.o'', pif_fd = 4, pif_offset = 0, pif_filesize = 512,
                 pif_handle = 1\<rparr>,
      AllSymbolsRead, Cleanup]"
  by (simp add: demo_linked_def demo_calls_def demo_reply_b_def demo_mf_b_def demo_core_def
      ingest_eval do_lto_def get_symbols_v2_def get_symbols_def resolve_loop.simps
      add_input_file_def resolve_symbols_def ObjectFile_create_def lto_cleanup_def
      demo_foo_def demo_bar_def)

lemma demo_start: "at_start (process_start X86_64 demo_args 2)"
  by (simp add: at_start_def process_start_def)

text \<open>
  C8: the one-time sequence of the loader (\<^verbatim>\<open>dlopen\<close> of the plugin, \<^verbatim>\<open>dlsym\<close> of
  \<^verbatim>\<open>onload\<close>, the capability table, one call of \<^verbatim>\<open>onload\<close> with that table) happens
  exactly once in a process, however many IR objects are ingested and whatever else is
  called in between: after any sequence of calls that started with the statics as
  initialised, ingested at least once and returned, the loader's events in the trace are
  that sequence, once. An ingestion that finds the once-flag set adds none.
\<close>

theorem loader_runs_once:
  "(at_start s \<and> run lib calls s = Inr s' \<and> (\<exists>c\<in>set calls. is_read c) \<longrightarrow>
      filter is_load (trace s') = load_sequence (arg s))
   \<and> (flag t \<and> read_lto_object liba reply m t = Inr (obj, t') \<longrightarrow>
        filter is_load (trace t') = filter is_load (trace t))"
proof (intro conjI impI)
  assume a: "at_start s \<and> run lib calls s = Inr s' \<and> (\<exists>c\<in>set calls. is_read c)"
  then have "\<not> flag s" "trace s = []" by (simp_all add: at_start_def)
  with a run_load_events [of lib calls s s']
  show "filter is_load (trace s') = load_sequence (arg s)" by simp
next
  assume "flag t \<and> read_lto_object liba reply m t = Inr (obj, t')"
  then show "filter is_load (trace t') = filter is_load (trace t)"
    using read_lto_object_statics(5) [of liba reply m t obj t'] by simp
qed

text \<open>The sample link ingests twice and loads once.\<close>

theorem loader_runs_once_witness:
  "at_start (process_start X86_64 demo_args 2)
   \<and> run demo_lib demo_calls (process_start X86_64 demo_args 2) = Inr demo_linked
   \<and> length (filter is_read demo_calls) = 2
   \<and> filter is_load (trace demo_linked)
       = [Dlopen ''liblto_plugin.so'', Dlsym ''onload'', Onload (capability_table demo_args)]
   \<and> flag demo_ingested
   \<and> read_lto_object demo_lib demo_reply_b demo_mf_b demo_ingested = Inr (1, demo_ingested2)
   \<and> filter is_load (trace demo_ingested2) = filter is_load (trace demo_ingested)"
proof -
  have two: "length (filter is_read demo_calls) = 2" and some: "\<exists>c\<in>set demo_calls. is_read c"
    by (simp_all add: demo_calls_def)
  note r = loader_runs_once [where s = "process_start X86_64 demo_args 2" and lib = demo_lib
      and calls = demo_calls and s' = demo_linked and t = demo_ingested and liba = demo_lib
      and reply = demo_reply_b and m = demo_mf_b and obj = 1 and t' = demo_ingested2]
  from r demo_start demo_linked_run some
  have a: "filter is_load (trace demo_linked) = load_sequence (arg (process_start X86_64 demo_args 2))"
    by blast
  from r demo_ingested_flag demo_ingest2_run
  have b: "filter is_load (trace demo_ingested2) = filter is_load (trace demo_ingested)"
    by blast
  have c: "load_sequence (arg (process_start X86_64 demo_args 2))
      = [Dlopen ''liblto_plugin.so'', Dlsym ''onload'', Onload (capability_table demo_args)]"
    by (simp add: load_sequence_def process_start_def demo_args_def)
  from demo_start demo_linked_run two a b c demo_ingested_flag demo_ingest2_run
  show ?thesis by simp
qed





section \<open>Priorities of IR objects and of compiled objects\<close>

lemma do_call_counters:
  assumes "do_call c s = Inr s'"
  shows "ctx_file_priority s' = ctx_file_priority s
     \<and> (if is_add_input_file c
         then objs s' = objs s @ [next_handle s]
              \<and> priority (files s' (next_handle s)) = file_priority s
              \<and> file_priority s' = file_priority s + 1
              \<and> next_handle s < next_handle s'
         else objs s' = objs s \<and> file_priority s' = file_priority s)"
  using assms
  by (cases c)
     (auto simp: add_symbols_def add_input_file_def resolve_symbols_def Let_def
        get_symbols_v1_def split: if_splits sum.splits option.splits)

lemma extends_files: "extends s s' \<Longrightarrow> h < next_handle s \<Longrightarrow> files s' h = files s h"
  by (simp add: extends_def)

lemma extends_next: "extends s s' \<Longrightarrow> next_handle s \<le> next_handle s'"
  by (simp add: extends_def)

lemma upt_0_Suc_map: "map f [0..<Suc n] = f 0 # map (\<lambda>i. f (Suc i)) [0..<n]"
proof -
  have "[0..<Suc n] = 0 # map Suc [0..<n]"
    by (simp add: upt_conv_Cons map_Suc_upt del: upt_Suc)
  then show ?thesis by (simp add: comp_def del: upt_Suc)
qed

lemma run_calls_counters:
  "run_calls cs s = Inr s' \<Longrightarrow>
     ctx_file_priority s' = ctx_file_priority s
     \<and> file_priority s' = file_priority s + int (length (filter is_add_input_file cs))
     \<and> (\<exists>new. objs s' = objs s @ new
           \<and> length new = length (filter is_add_input_file cs)
           \<and> map (\<lambda>h. priority (files s' h)) new
               = map (\<lambda>i. file_priority s + int i) [0..<length new])"
proof (induction cs arbitrary: s)
  case Nil
  then show ?case by simp
next
  case (Cons c cs)
  then obtain s1 where s1: "do_call c s = Inr s1" "run_calls cs s1 = Inr s'"
    by (auto split: sum.splits)
  from Cons.IH [OF s1(2)] obtain new where ih:
    "ctx_file_priority s' = ctx_file_priority s1"
    "file_priority s' = file_priority s1 + int (length (filter is_add_input_file cs))"
    "objs s' = objs s1 @ new" "length new = length (filter is_add_input_file cs)"
    "map (\<lambda>h. priority (files s' h)) new
       = map (\<lambda>i. file_priority s1 + int i) [0..<length new]"
    by blast
  note c1 = do_call_counters [OF s1(1)]
  show ?case
  proof (cases "is_add_input_file c")
    case False
    with c1 ih show ?thesis by simp
  next
    case True
    with c1 have a: "objs s1 = objs s @ [next_handle s]"
      "priority (files s1 (next_handle s)) = file_priority s"
      "file_priority s1 = file_priority s + 1" "next_handle s < next_handle s1"
      "ctx_file_priority s1 = ctx_file_priority s"
      by simp_all
    from extends_files [OF run_calls_extends [OF s1(2)] a(4)] a(2)
    have p: "priority (files s' (next_handle s)) = file_priority s" by simp
    let ?new = "next_handle s # new"
    have 1: "objs s' = objs s @ ?new" using ih(3) a(1) by simp
    have 2: "length ?new = length (filter is_add_input_file (c # cs))"
      using ih(4) True by simp
    have 3: "map (\<lambda>h. priority (files s' h)) ?new
               = map (\<lambda>i. file_priority s + int i) [0..<length ?new]"
      using p ih(5) a(3)
      by (simp add: upt_0_Suc_map [of "\<lambda>i. file_priority s + int i"] add.assoc del: upt_Suc)
    have 4: "file_priority s' = file_priority s + int (length (filter is_add_input_file (c # cs)))"
      using ih(2) a(3) True by simp
    from 1 2 3 4 ih(1) a(5) show ?thesis by (metis (no_types, lifting))
  qed
qed

lemma init_symbols_frame:
  "h \<noteq> obj \<Longrightarrow> files (init_symbols obj s) h = files s h"
  "next_handle (init_symbols obj s) = next_handle s"
  "objs (init_symbols obj s) = objs s"
  "ctx_file_priority (init_symbols obj s) = ctx_file_priority s"
  "file_priority (init_symbols obj s) = file_priority s"
  by (simp_all add: init_symbols_def Let_def split: prod.splits)

lemma create_object_counters:
  "ctx_file_priority (snd (create_object m s)) = ctx_file_priority s"
  "file_priority (snd (create_object m s)) = file_priority s"
  by (simp_all add: create_object_def Let_def)

lemma read_lto_object_frame:
  assumes "read_lto_object lib reply m s = Inr (obj, s')"
  shows "obj = next_handle s \<and> obj < next_handle s'
     \<and> (\<forall>h<next_handle s. files s' h = files s h)
     \<and> ctx_file_priority s' = ctx_file_priority s
     \<and> file_priority s' = file_priority s + int (length (filter is_add_input_file (claim_calls reply)))"
proof -
  from assms obtain s0 s1 where r: "call_once_load_plugin lib s = Inr s0" "obj = next_handle s0"
    "run_calls (claim_calls reply)
       ((snd (create_object m s0))\<lparr>trace := trace s0 @ [ClaimFile (create_plugin_file reply m obj)]\<rparr>)
     = Inr s1"
    "s' = init_symbols obj s1"
    by (auto elim: read_lto_object_Inr)
  let ?c = "(snd (create_object m s0))\<lparr>trace := trace s0 @ [ClaimFile (create_plugin_file reply m obj)]\<rparr>"
  note f = call_once_frame [OF r(1)]
  note e = run_calls_extends [OF r(3)]
  note k = run_calls_counters [OF r(3)]
  have o: "obj = next_handle s" using r(2) f(2) by simp
  have nc: "next_handle ?c = Suc obj" by (simp add: create_object_frame r(2))
  from extends_next [OF e] nc have lt: "obj < next_handle s'"
    by (simp add: r(4) init_symbols_frame)
  have old: "files s' h = files s h" if "h < next_handle s" for h
  proof -
    from that o have ne: "h \<noteq> obj" and "h < next_handle ?c" using nc by simp_all
    with extends_files [OF e] have "files s1 h = files ?c h" by simp
    also from ne have "\<dots> = files s0 h" by (simp add: create_object_frame r(2))
    finally show ?thesis using ne f(3) by (simp add: r(4) init_symbols_frame)
  qed
  from k have "ctx_file_priority s' = ctx_file_priority s"
    and "file_priority s' = file_priority s + int (length (filter is_add_input_file (claim_calls reply)))"
    by (simp_all add: r(4) init_symbols_frame create_object_counters f)
  with o lt old show ?thesis by simp
qed

lemma ingest_step:
  assumes "ingest lib reply m s = Inr (obj, s')"
  shows "obj = next_handle s \<and> obj < next_handle s'
     \<and> (\<forall>h<next_handle s. files s' h = files s h)
     \<and> priority (files s' obj) = ctx_file_priority s
     \<and> ctx_file_priority s' = ctx_file_priority s + 1
     \<and> file_priority s' = file_priority s + int (length (filter is_add_input_file (claim_calls reply)))"
proof -
  from assms obtain s1 where r: "read_lto_object lib reply m s = Inr (obj, s1)"
    "s' = s1\<lparr>files := (files s1)(obj := (files s1 obj)\<lparr>priority := ctx_file_priority s1\<rparr>),
             ctx_file_priority := ctx_file_priority s1 + 1, objs := objs s1 @ [obj]\<rparr>"
    by (auto simp: ingest_def Let_def split: sum.splits)
  from read_lto_object_frame [OF r(1)] show ?thesis by (auto simp: r(2))
qed

lemma ingest_all_priorities:
  "ingest_all lib reqs s = Inr (hs, s') \<Longrightarrow>
     length hs = length reqs
     \<and> next_handle s \<le> next_handle s'
     \<and> (\<forall>h<next_handle s. files s' h = files s h)
     \<and> ctx_file_priority s' = ctx_file_priority s + int (length reqs)
     \<and> map (\<lambda>h. priority (files s' h)) hs
         = map (\<lambda>i. ctx_file_priority s + int i) [0..<length reqs]"
proof (induction reqs arbitrary: s hs)
  case Nil
  then show ?case by auto
next
  case (Cons rq rest)
  obtain reply m where rq: "rq = (reply, m)" by (cases rq)
  with Cons.prems obtain obj s1 hs' where st:
    "ingest lib reply m s = Inr (obj, s1)" "ingest_all lib rest s1 = Inr (hs', s')" "hs = obj # hs'"
    by (auto split: sum.splits)
  note a = ingest_step [OF st(1)]
  note ih = Cons.IH [OF st(2)]
  from a have a1: "obj < next_handle s1" and a2: "priority (files s1 obj) = ctx_file_priority s"
    by blast+
  from ih have "\<forall>h<next_handle s1. files s' h = files s1 h" by blast
  with a1 have "files s' obj = files s1 obj" by blast
  with a2 have p: "priority (files s' obj) = ctx_file_priority s" by simp
  have m: "map (\<lambda>h. priority (files s' h)) hs
         = map (\<lambda>i. ctx_file_priority s + int i) [0..<length (rq # rest)]"
    using p ih a
    by (simp add: st(3) upt_0_Suc_map [of "\<lambda>i. ctx_file_priority s + int i"] add.assoc
        del: upt_Suc)
  from a ih have old: "\<forall>h<next_handle s. files s' h = files s h" by auto
  from a ih m old st(3) show ?case by auto
qed

lemma sorted_wrt_map_upt: "sorted_wrt (<) (map (\<lambda>i. (c::int) + int i) [0..<n])"
  by (simp add: sorted_wrt_map sorted_wrt_iff_nth_less)

lemma mark_dead_priority [simp]: "priority (mark_dead hs fs h) = priority (fs h)"
  by (simp add: mark_dead_cases)

lemma do_lto_new_objs:
  assumes "do_lto hook s = Inr s'" and "objs_allocated s"
  shows "\<exists>new. objs s' = filter (\<lambda>h. \<not> is_lto_obj (files s h)) (objs s) @ new
           \<and> length new = length (filter is_add_input_file hook)
           \<and> map (\<lambda>h. priority (files s' h)) new
               = map (\<lambda>i. file_priority s + int i) [0..<length new]
           \<and> (\<forall>h<next_handle s. priority (files s' h) = priority (files s h))"
proof -
  from assms(1) obtain s1 where s1:
    "run_calls hook (s\<lparr>phase := 2, trace := trace s @ [AllSymbolsRead]\<rparr>) = Inr s1"
    "s' = s1\<lparr>files := mark_dead (objs s1) (files s1),
              objs := filter (\<lambda>file. \<not> is_lto_obj (files s1 file)) (objs s1)\<rparr>"
    by (auto elim: do_lto_Inr)
  from run_calls_counters [OF s1(1)] obtain new where n: "objs s1 = objs s @ new"
    "length new = length (filter is_add_input_file hook)"
    "map (\<lambda>h. priority (files s1 h)) new = map (\<lambda>i. file_priority s + int i) [0..<length new]"
    by auto
  from run_calls_extends [OF s1(1)] n(1) have
    e: "\<forall>h<next_handle s. files s1 h = files s h"
      "\<forall>h\<in>set new. \<not> is_lto_obj (files s1 h)"
    by (auto simp: extends_def)
  have old: "\<forall>h\<in>set (objs s). files s1 h = files s h"
    using assms(2) e(1) by (simp add: objs_allocated_def)
  have f: "filter (\<lambda>file. \<not> is_lto_obj (files s1 file)) (objs s)
      = filter (\<lambda>h. \<not> is_lto_obj (files s h)) (objs s)"
    using old by (auto intro: filter_cong)
  have g: "filter (\<lambda>file. \<not> is_lto_obj (files s1 file)) new = new"
    using e(2) by (auto intro: filter_True)
  have 1: "objs s' = filter (\<lambda>h. \<not> is_lto_obj (files s h)) (objs s) @ new"
    by (simp add: s1(2) n(1) f g)
  have 2: "map (\<lambda>h. priority (files s' h)) new
      = map (\<lambda>i. file_priority s + int i) [0..<length new]"
    using n(3) by (simp add: s1(2))
  have 3: "\<forall>h<next_handle s. priority (files s' h) = priority (files s h)"
    using e(1) by (simp add: s1(2))
  from 1 2 3 n(2) show ?thesis by blast
qed

lemma ingest_all_file_priority:
  "ingest_all lib rs u = Inr (gs, u') \<Longrightarrow>
     (\<forall>r\<in>set rs. filter is_add_input_file (claim_calls (fst r)) = []) \<Longrightarrow>
     file_priority u' = file_priority u"
proof (induction rs arbitrary: u gs)
  case Nil
  then show ?case by auto
next
  case (Cons rq rest)
  obtain reply m where rq: "rq = (reply, m)" by (cases rq)
  with Cons.prems(1) obtain obj u1 gs' where st:
    "ingest lib reply m u = Inr (obj, u1)" "ingest_all lib rest u1 = Inr (gs', u')"
    by (auto split: sum.splits)
  from ingest_step [OF st(1)] Cons.prems(2) rq have "file_priority u1 = file_priority u"
    by simp
  with Cons.IH [OF st(2)] Cons.prems(2) show ?case by simp
qed

lemmas cex_eval = cex_ingested_def cex_compiled_def cex_reqs_def cex_hook_def ingest_def
  demo_reply_b_def demo_mf_b_def ingest_eval do_lto_def add_input_file_def
  resolve_symbols_def ObjectFile_create_def demo_foo_def demo_bar_def

lemma cex_ingest_run:
  "ingest_all demo_lib cex_reqs (process_start X86_64 demo_args 100) = Inr ([0, 1], cex_ingested)"
  by (simp add: cex_eval)

lemma cex_compile_run: "do_lto cex_hook cex_ingested = Inr cex_compiled"
  by (simp add: cex_eval)

lemma cex_ingested_facts:
  "objs cex_ingested = [0, 1]" "next_handle cex_ingested = 2"
  "is_lto_obj (files cex_ingested 0)" "is_lto_obj (files cex_ingested 1)"
  "priority (files cex_ingested 0) = 100" "priority (files cex_ingested 1) = 101"
  "file_priority cex_ingested = 100"
  by (simp_all add: cex_eval)

lemma cex_compiled_facts:
  "objs cex_compiled = [2]" "\<not> is_lto_obj (files cex_compiled 2)"
  "priority (files cex_compiled 0) = 100" "priority (files cex_compiled 1) = 101"
  "priority (files cex_compiled 2) = 100"
  by (simp_all add: cex_eval)

text \<open>
  The priority of a compiled object is not always above the priorities of the IR objects.
  With the session counter at 100, the two IR objects get the priorities 100 and 101; the
  compiled object that \<^verbatim>\<open>add_input_file\<close> creates gets 100, the first value of its own
  counter.
\<close>

theorem compiled_priority_not_greater:
  "ingest_all demo_lib cex_reqs (process_start X86_64 demo_args 100) = Inr ([0, 1], cex_ingested)
   \<and> is_lto_obj (files cex_ingested 0) \<and> is_lto_obj (files cex_ingested 1)
   \<and> do_lto cex_hook cex_ingested = Inr cex_compiled
   \<and> objs cex_compiled = [2] \<and> \<not> is_lto_obj (files cex_compiled 2)
   \<and> priority (files cex_compiled 0) = 100
   \<and> priority (files cex_compiled 1) = 101
   \<and> priority (files cex_compiled 2) = 100
   \<and> \<not> priority (files cex_compiled 0) < priority (files cex_compiled 2)
   \<and> \<not> priority (files cex_compiled 1) < priority (files cex_compiled 2)"
  using cex_ingest_run cex_compile_run cex_ingested_facts cex_compiled_facts by simp

text \<open>
  Where the session counter starts does not matter: for every value \<open>p\<close> of the counter
  at the start there is a number of ingestions after which an IR object has a priority
  that the first compiled object does not exceed.
\<close>

lemma ingest_collecting:
  assumes "collecting s"
  shows "\<exists>s'. ingest demo_lib demo_reply demo_mf s = Inr (next_handle s, s')
           \<and> collecting s' \<and> phase s' = 1 \<and> all_symbols_read_hook s'
           \<and> objs s' = objs s @ [next_handle s] \<and> next_handle s' = Suc (next_handle s)
           \<and> is_lto_obj (files s' (next_handle s))"
  using assms
  by (auto simp: collecting_def ingest_def read_lto_object_def call_once_load_plugin_def
      load_plugin_def demo_lib_def demo_reply_def create_object_def create_plugin_file_def
      init_symbols_def add_symbols_def Let_def)

lemma ingest_all_collecting:
  "collecting s \<Longrightarrow> objs_allocated s \<Longrightarrow>
     \<exists>hs s'. ingest_all demo_lib (replicate n (demo_reply, demo_mf)) s = Inr (hs, s')
       \<and> collecting s' \<and> objs_allocated s'
       \<and> objs s' = objs s @ hs
       \<and> (\<forall>h\<in>set hs. is_lto_obj (files s' h) \<and> h < next_handle s')
       \<and> (0 < n \<longrightarrow> phase s' = 1 \<and> all_symbols_read_hook s')"
proof (induction n arbitrary: s)
  case 0
  then show ?case by simp
next
  case (Suc n)
  from ingest_collecting [OF Suc.prems(1)] obtain s1 where
    s1: "ingest demo_lib demo_reply demo_mf s = Inr (next_handle s, s1)" "collecting s1"
      "phase s1 = 1" "all_symbols_read_hook s1" "objs s1 = objs s @ [next_handle s]"
      "next_handle s1 = Suc (next_handle s)" "is_lto_obj (files s1 (next_handle s))"
    by blast
  from Suc.prems(2) s1(5,6) have al: "objs_allocated s1"
    by (auto simp: objs_allocated_def)
  from Suc.IH [OF s1(2) al] obtain hs s' where
    ih: "ingest_all demo_lib (replicate n (demo_reply, demo_mf)) s1 = Inr (hs, s')"
      "collecting s'" "objs_allocated s'" "objs s' = objs s1 @ hs"
      "\<forall>h\<in>set hs. is_lto_obj (files s' h) \<and> h < next_handle s'"
      "0 < n \<longrightarrow> phase s' = 1 \<and> all_symbols_read_hook s'"
    by blast
  from ingest_all_priorities [OF ih(1)] s1(6,7)
  have keep: "is_lto_obj (files s' (next_handle s)) \<and> next_handle s < next_handle s'"
    by auto
  have ph: "phase s' = 1 \<and> all_symbols_read_hook s'"
  proof (cases n)
    case 0
    with ih(1) s1(3,4) show ?thesis by simp
  next
    case (Suc k)
    with ih(6) show ?thesis by simp
  qed
  have run: "ingest_all demo_lib (replicate (Suc n) (demo_reply, demo_mf)) s
      = Inr (next_handle s # hs, s')"
    using s1(1) ih(1) by simp
  from run ih(2,3,4,5) s1(5) keep ph show ?case by auto
qed

lemma do_lto_cex_hook:
  assumes "phase s = 1" and "all_symbols_read_hook s"
  shows "\<exists>s'. do_lto cex_hook s = Inr s'"
  using assms by (simp add: do_lto_def cex_hook_def add_input_file_def Let_def)

lemma no_start_saves_order:
  "\<exists>n hs s1 s2 h c.
     ingest_all demo_lib (replicate n (demo_reply, demo_mf)) (process_start X86_64 demo_args p)
       = Inr (hs, s1)
     \<and> do_lto cex_hook s1 = Inr s2
     \<and> h \<in> set hs \<and> is_lto_obj (files s1 h)
     \<and> c \<in> set (objs s2)
     \<and> \<not> priority (files s2 h) < priority (files s2 c)"
proof -
  define n where "n = (if p \<le> 100 then nat (101 - p) else 1)"
  have n0: "0 < n" and big: "100 \<le> p + int n - 1" by (auto simp: n_def)
  let ?s = "process_start X86_64 demo_args p"
  have c0: "collecting ?s" "objs_allocated ?s" "file_priority ?s = 100" "ctx_file_priority ?s = p"
    by (simp_all add: collecting_def objs_allocated_def process_start_def demo_args_def)
  from ingest_all_collecting [OF c0(1,2), of n] n0 obtain hs s1 where
    i: "ingest_all demo_lib (replicate n (demo_reply, demo_mf)) ?s = Inr (hs, s1)"
      "objs_allocated s1" "\<forall>h\<in>set hs. is_lto_obj (files s1 h) \<and> h < next_handle s1"
      "phase s1 = 1" "all_symbols_read_hook s1"
    by blast
  from ingest_all_priorities [OF i(1)] c0(4)
  have len: "length hs = n"
    and pr: "map (\<lambda>h. priority (files s1 h)) hs = map (\<lambda>i. p + int i) [0..<n]"
    by simp_all
  from ingest_all_file_priority [OF i(1)] c0(3) have fp: "file_priority s1 = 100"
    by (simp add: demo_reply_def)
  from do_lto_cex_hook [OF i(4,5)] obtain s2 where d: "do_lto cex_hook s1 = Inr s2" by blast
  from do_lto_new_objs [OF d i(2)] fp obtain new where
    nw: "objs s2 = filter (\<lambda>h. \<not> is_lto_obj (files s1 h)) (objs s1) @ new"
      "length new = 1" "map (\<lambda>h. priority (files s2 h)) new = map (\<lambda>i. 100 + int i) [0..<length new]"
      "\<forall>h<next_handle s1. priority (files s2 h) = priority (files s1 h)"
    by (auto simp: cex_hook_def)
  from nw(2) obtain c where c: "new = [c]" by (cases new) auto
  with nw(1,3) have cin: "c \<in> set (objs s2)" and cp: "priority (files s2 c) = 100" by simp_all
  let ?h = "hs ! (n - 1)"
  from n0 len have hin: "?h \<in> set hs" by simp
  from pr have "map (\<lambda>h. priority (files s1 h)) hs ! (n - 1) = map (\<lambda>i. p + int i) [0..<n] ! (n - 1)"
    by simp
  with n0 len have "priority (files s1 ?h) = p + int (n - 1)" by simp
  with n0 have hp: "priority (files s1 ?h) = p + int n - 1" by (simp add: of_nat_diff)
  from i(3) hin have hl: "is_lto_obj (files s1 ?h)" and hb: "?h < next_handle s1" by blast+
  from nw(4) hb hp have "priority (files s2 ?h) = p + int n - 1" by simp
  with big cp have "\<not> priority (files s2 ?h) < priority (files s2 c)" by simp
  with i(1) d hin hl cin show ?thesis by blast
qed

text \<open>
  C5, as the code has it: the IR objects get, in ingestion order, the successive values of
  the session counter, so their priorities are strictly increasing. The compiled objects
  that \<^verbatim>\<open>do_lto\<close> appends to \<^verbatim>\<open>ctx.objs\<close> get, in hand-back order, the successive
  values of the counter of \<^verbatim>\<open>add_input_file\<close>, so their priorities are strictly
  increasing too, and \<^verbatim>\<open>do_lto\<close> changes no other priority. That counter is 100 when
  the process starts and ingestions that hand back no file leave it there: it does not
  depend on the priorities of the IR objects.
\<close>

theorem priorities_by_counter:
  "(ingest_all lib reqs s = Inr (hs, s') \<longrightarrow>
      map (\<lambda>h. priority (files s' h)) hs
        = map (\<lambda>i. ctx_file_priority s + int i) [0..<length reqs]
      \<and> sorted_wrt (<) (map (\<lambda>h. priority (files s' h)) hs))
   \<and> (do_lto hook t = Inr t' \<and> objs_allocated t \<longrightarrow>
        (\<exists>new. objs t' = filter (\<lambda>h. \<not> is_lto_obj (files t h)) (objs t) @ new
           \<and> length new = length (filter is_add_input_file hook)
           \<and> map (\<lambda>h. priority (files t' h)) new
               = map (\<lambda>i. file_priority t + int i) [0..<length new]
           \<and> sorted_wrt (<) (map (\<lambda>h. priority (files t' h)) new)
           \<and> (\<forall>h<next_handle t. priority (files t' h) = priority (files t h))))
   \<and> (at_start u \<and> ingest_all liba rs u = Inr (gs, u')
        \<and> (\<forall>r\<in>set rs. filter is_add_input_file (claim_calls (fst r)) = []) \<longrightarrow>
        file_priority u' = 100)"
proof -
  have c1: "map (\<lambda>h. priority (files s' h)) hs
        = map (\<lambda>i. ctx_file_priority s + int i) [0..<length reqs]
      \<and> sorted_wrt (<) (map (\<lambda>h. priority (files s' h)) hs)"
    if a: "ingest_all lib reqs s = Inr (hs, s')"
  proof -
    from ingest_all_priorities [OF a]
    have m: "map (\<lambda>h. priority (files s' h)) hs
        = map (\<lambda>i. ctx_file_priority s + int i) [0..<length reqs]" by blast
    with sorted_wrt_map_upt [of "ctx_file_priority s" "length reqs"] show ?thesis by simp
  qed
  have c2: "\<exists>new. objs t' = filter (\<lambda>h. \<not> is_lto_obj (files t h)) (objs t) @ new
           \<and> length new = length (filter is_add_input_file hook)
           \<and> map (\<lambda>h. priority (files t' h)) new
               = map (\<lambda>i. file_priority t + int i) [0..<length new]
           \<and> sorted_wrt (<) (map (\<lambda>h. priority (files t' h)) new)
           \<and> (\<forall>h<next_handle t. priority (files t' h) = priority (files t h))"
    if a: "do_lto hook t = Inr t' \<and> objs_allocated t"
  proof -
    from a do_lto_new_objs [of hook t t'] obtain new where
      n: "objs t' = filter (\<lambda>h. \<not> is_lto_obj (files t h)) (objs t) @ new"
        "length new = length (filter is_add_input_file hook)"
        "map (\<lambda>h. priority (files t' h)) new
               = map (\<lambda>i. file_priority t + int i) [0..<length new]"
        "\<forall>h<next_handle t. priority (files t' h) = priority (files t h)"
      by blast
    from n(3) sorted_wrt_map_upt [of "file_priority t" "length new"]
    have "sorted_wrt (<) (map (\<lambda>h. priority (files t' h)) new)" by simp
    with n show ?thesis by blast
  qed
  have c3: "file_priority u' = 100"
    if a: "at_start u \<and> ingest_all liba rs u = Inr (gs, u')
        \<and> (\<forall>r\<in>set rs. filter is_add_input_file (claim_calls (fst r)) = [])"
    using a ingest_all_file_priority [of liba rs u gs u'] by (simp add: at_start_def)
  from c1 c2 c3 show ?thesis by blast
qed

text \<open>The two ingestions and the compilation of the sample above.\<close>

theorem priorities_by_counter_witness:
  "ingest_all demo_lib cex_reqs (process_start X86_64 demo_args 100) = Inr ([0, 1], cex_ingested)
   \<and> ctx_file_priority (process_start X86_64 demo_args 100) = 100
   \<and> map (\<lambda>h. priority (files cex_ingested h)) [0, 1] = [100, 101]
   \<and> sorted_wrt (<) (map (\<lambda>h. priority (files cex_ingested h)) [0, 1])
   \<and> do_lto cex_hook cex_ingested = Inr cex_compiled
   \<and> objs_allocated cex_ingested
   \<and> filter (\<lambda>h. \<not> is_lto_obj (files cex_ingested h)) (objs cex_ingested) = []
   \<and> objs cex_compiled = [2]
   \<and> file_priority cex_ingested = 100
   \<and> map (\<lambda>h. priority (files cex_compiled h)) [2] = [100]
   \<and> at_start (process_start X86_64 demo_args 100)
   \<and> filter is_add_input_file (claim_calls demo_reply) = []
   \<and> filter is_add_input_file (claim_calls demo_reply_b) = []"
proof -
  note r = priorities_by_counter [where lib = demo_lib and reqs = cex_reqs
      and s = "process_start X86_64 demo_args 100" and hs = "[0, 1]" and s' = cex_ingested
      and hook = cex_hook and t = cex_ingested and t' = cex_compiled
      and u = "process_start X86_64 demo_args 100" and liba = demo_lib and rs = cex_reqs
      and gs = "[0, 1]" and u' = cex_ingested]
  have st: "at_start (process_start X86_64 demo_args 100)"
    "ctx_file_priority (process_start X86_64 demo_args 100) = 100"
    by (simp_all add: at_start_def process_start_def)
  have al: "objs_allocated cex_ingested"
    by (simp add: objs_allocated_def cex_ingested_facts)
  have nh: "filter is_add_input_file (claim_calls demo_reply) = []"
    "filter is_add_input_file (claim_calls demo_reply_b) = []"
    by (simp_all add: demo_reply_def demo_reply_b_def)
  then have nh': "\<forall>r\<in>set cex_reqs. filter is_add_input_file (claim_calls (fst r)) = []"
    by (simp add: cex_reqs_def)
  have fl: "filter (\<lambda>h. \<not> is_lto_obj (files cex_ingested h)) (objs cex_ingested) = []"
    by (simp add: cex_ingested_facts(1,3) cex_ingested_facts(4) [unfolded One_nat_def])
  from r cex_ingest_run
  have a: "map (\<lambda>h. priority (files cex_ingested h)) [0, 1]
        = map (\<lambda>i. ctx_file_priority (process_start X86_64 demo_args 100) + int i) [0..<length cex_reqs]"
    and b: "sorted_wrt (<) (map (\<lambda>h. priority (files cex_ingested h)) [0, 1])"
    by blast+
  have up: "[0..<length cex_reqs] = [0, 1]" by (simp add: cex_reqs_def upt_conv_Cons)
  from a have a': "map (\<lambda>h. priority (files cex_ingested h)) [0, 1] = [100, 101]"
    by (simp add: st(2) up)
  from r st(1) cex_ingest_run nh' have c: "file_priority cex_ingested = 100" by blast
  have d: "map (\<lambda>h. priority (files cex_compiled h)) [2] = [100]"
    by (simp add: cex_compiled_facts)
  from cex_ingest_run st a' b cex_compile_run al fl cex_compiled_facts(1) c d nh
  show ?thesis by blast
qed


end
